theory Spec2Isabelle
  imports Main "HOL-Library.Word" "HOL-Library.Signed_Division"
begin

unbundle bit_operations_syntax

section \<open>Machine integers of the x64 Windows build\<close>

text \<open>
  The program is Windows code (LLP64): \<open>long long\<close>, \<open>unsigned long long\<close> and
  \<open>size_t\<close> are 64 bits wide, \<open>unsigned long\<close> and \<open>int\<close> are 32 bits wide.
  A word is only a bit pattern; \<open>sint\<close> reads it as a signed value and \<open>uint\<close>/\<open>unat\<close>
  as an unsigned one, and a C++ conversion between the signed and the unsigned type of the same
  width keeps the bits.
\<close>

type_synonym llong = "64 word"
type_synonym ullong = "64 word"
type_synonym size_t = "64 word"
type_synonym ulong = "32 word"
type_synonym hresult = "32 word"
type_synonym guid = "128 word"

datatype exn =
    ResultException hresult  \<comment> \<open>\<open>wil::ResultException\<close> carrying its error code\<close>
  | LengthError              \<comment> \<open>\<open>std::length_error\<close> of \<open>std::vector::resize\<close>\<close>
  | OtherException           \<comment> \<open>any other C++ exception\<close>

datatype error =
    DivideByZero     \<comment> \<open>integer division by zero (undefined behaviour, a trap on x64)\<close>
  | SignedOverflow   \<comment> \<open>overflow of the \<open>int\<close> loop counter (undefined behaviour)\<close>
  | OutOfBounds      \<comment> \<open>\<open>std::vector::operator[]\<close> outside the vector (undefined behaviour)\<close>
  | FailFast         \<comment> \<open>\<open>FAIL_FAST...\<close>: the process is terminated\<close>
  | Uncaught exn     \<comment> \<open>an exception leaves the function\<close>

text \<open>Division of two \<open>long long\<close> values truncates towards zero.\<close>

definition llong_div :: "llong \<Rightarrow> llong \<Rightarrow> llong" where
  "llong_div a b = word_of_int (sint a sdiv sint b)"

text \<open>\<open>MAXSIZE_T\<close> is \<open>((SIZE_T)~((SIZE_T)0))\<close>, every bit of a \<open>size_t\<close> set.\<close>

definition MAXSIZE_T :: size_t where
  "MAXSIZE_T = NOT 0"

section \<open>datagram.h\<close>

definition c_datagramSequenceNumberLength :: ulong where
  "c_datagramSequenceNumberLength = 8"

definition c_datagramTimestampLength :: ulong where
  "c_datagramTimestampLength = 8"

definition c_datagramHeaderLength :: ulong where
  "c_datagramHeaderLength = c_datagramSequenceNumberLength + 2 * c_datagramTimestampLength"

text \<open>
  The fields of \<open>DatagramHeader\<close> carry the prefix \<open>hdr\<close> in place of the \<open>m\<close> of the
  source, since the run controller below has a member of the same name.
\<close>

record DatagramHeader =
  hdr_sequenceNumber :: llong
  hdr_sendTimestamp :: llong
  hdr_echoTimestamp :: llong

text \<open>
  \<open>ValidateBufferLength\<close>: the comparison is between a \<open>size_t\<close> and an
  \<open>unsigned long\<close>, so the header length is widened and the comparison is unsigned.
\<close>

definition ValidateBufferLength :: "size_t \<Rightarrow> bool" where
  "ValidateBufferLength completedBytes =
     (if completedBytes < ucast c_datagramHeaderLength then False else True)"

section \<open>Rate computations of stream\_client.cpp\<close>

text \<open>
  \<open>CalculateTickInterval\<close>: \<open>datagramSize\<close> is unsigned, so the product and the
  quotient are computed in \<open>unsigned long long\<close> (wrapping modulo \<open>2^64\<close>, the signed
  operands converted bit for bit), and the quotient is returned as a \<open>long long\<close>.
\<close>

definition CalculateTickInterval :: "llong \<Rightarrow> llong \<Rightarrow> ullong \<Rightarrow> error + llong" where
  "CalculateTickInterval bitRate frameRate datagramSize =
     (let hundredNanoSecInSecond = (10000000 :: llong);
          byteRate = llong_div bitRate 8
      in if byteRate = 0 then Inl DivideByZero
         else Inr ((datagramSize * frameRate * hundredNanoSecInSecond) div byteRate))"

text \<open>
  \<open>CalculateNumberOfDatagramToSend\<close>: the product is a \<open>long long\<close> product, the
  division by the unsigned \<open>datagramSize\<close> is an unsigned division.
\<close>

definition CalculateNumberOfDatagramToSend :: "llong \<Rightarrow> llong \<Rightarrow> ullong \<Rightarrow> error + llong" where
  "CalculateNumberOfDatagramToSend duration bitRate datagramSize =
     (let byteRate = llong_div bitRate 8
      in if datagramSize = 0 then Inl DivideByZero
         else Inr ((duration * byteRate) div datagramSize))"

text \<open>
  Modelled from the spec: \<open>MeasuredSocket::c_bufferSize\<close> is declared in measured\_socket.h,
  which is not among the sources; the spec gives the fixed datagram size as 1024 bytes (and the
  older header declares 1 KB send and receive buffers).
\<close>

definition c_bufferSize :: ullong where
  "c_bufferSize = 1024"

text \<open>
  Modelled from the spec: \<open>ConvertHundredNanosToRelativeFiletime\<close> is declared in
  time\_utils.h, which is not among the sources. A relative \<open>FILETIME\<close> is kept as the count
  of hundred-nanosecond units it was made from.
\<close>

datatype FILETIME = RelativeFiletime llong

definition ConvertHundredNanosToRelativeFiletime :: "llong \<Rightarrow> FILETIME" where
  "ConvertHundredNanosToRelativeFiletime hundredNanos = RelativeFiletime hundredNanos"

section \<open>Data of the run controller\<close>

datatype Interface = Primary | Secondary

datatype AdapterStatus = Disabled | Connecting | Ready

text \<open>
  Modelled from the spec: \<open>LatencyData\<close> is declared in latencyStatistics.h, which is not
  among the sources; the spec lists its six timestamps, and stream\_client.cpp names them.
  \<open>std::vector::resize\<close> value-initialises new records, every timestamp zero.
\<close>

record LatencyData =
  m_primarySendTimestamp :: llong
  m_primaryEchoTimestamp :: llong
  m_primaryReceiveTimestamp :: llong
  m_secondarySendTimestamp :: llong
  m_secondaryEchoTimestamp :: llong
  m_secondaryReceiveTimestamp :: llong

definition LatencyData_zero :: LatencyData where
  "LatencyData_zero =
     \<lparr>m_primarySendTimestamp = 0, m_primaryEchoTimestamp = 0, m_primaryReceiveTimestamp = 0,
      m_secondarySendTimestamp = 0, m_secondaryEchoTimestamp = 0, m_secondaryReceiveTimestamp = 0\<rparr>"

text \<open>
  \<open>MeasuredSocket::SendResult\<close> and \<open>MeasuredSocket::ReceiveResult\<close>, with the members
  stream\_client.cpp reads (prefixes \<open>sr\<close> and \<open>rr\<close> in place of \<open>m\<close>).
\<close>

record SendResult =
  sr_sequenceNumber :: llong
  sr_sendTimestamp :: llong

record ReceiveResult =
  rr_sequenceNumber :: llong
  rr_sendTimestamp :: llong
  rr_echoTimestamp :: llong
  rr_receiveTimestamp :: llong

text \<open>
  Modelled from the spec: the transport path \<open>MeasuredSocket\<close> is implemented in
  measured\_socket.cpp, which is not among the sources. The path owns a socket, a pool of posted
  receives, its adapter status and a corrupt-frame counter.
\<close>

record MeasuredSocket =
  m_adapterStatus :: AdapterStatus
  m_corruptFrames :: llong
  m_socketOpen :: bool
  m_receivesPosted :: bool

text \<open>
  Modelled from the spec: \<open>ThreadpoolTimer\<close> is declared in threadpool\_timer.h, which is
  not among the sources. The send scheduler reschedules itself after each tick, so the timer
  fires once per \<open>Schedule\<close>: its state is the interval of the pending callback, if any.
\<close>

type_synonym ThreadpoolTimer = "FILETIME option"

text \<open>
  The members of \<open>StreamClient\<close>, with the initial values of the header. The target address,
  the receive buffer count and the handle of the completion event, which no operation below
  changes, are left out. The two corrupt-frame counters of stream\_client.cpp are not declared
  in the header among the sources (which is older than stream\_client.cpp and keeps a counter in
  each path); they are taken to be \<open>long long\<close> counters that start at zero, as that one.
  The fields after \<open>m_secondaryCorruptFrames\<close> are not members:
  \<open>cb_primaryInterfaceGuid\<close> and \<open>cb_secondaryInterfaceGuid\<close> are the mutable captures of
  the network-status callback, and the \<open>fx\<close> fields record the effects on the outside: the
  datagrams handed to a path for sending, the milliseconds slept and the number of times the
  completion event was set.
\<close>

record StreamClient =
  m_networkInformationEventRevoker :: bool
  m_wlanHandle :: bool
  m_primaryState :: MeasuredSocket
  m_secondaryState :: MeasuredSocket
  m_frameRate :: llong
  m_tickInterval :: FILETIME
  m_finalSequenceNumber :: llong
  m_threadpoolTimer :: ThreadpoolTimer
  m_running :: bool
  m_sequenceNumber :: llong
  m_latencyData :: "LatencyData list"
  m_primaryCorruptFrames :: llong
  m_secondaryCorruptFrames :: llong
  cb_primaryInterfaceGuid :: guid
  cb_secondaryInterfaceGuid :: guid
  fx_sent :: "(Interface \<times> llong) list"
  fx_sleptMs :: nat
  fx_completeEvent :: nat

definition MeasuredSocket_new :: MeasuredSocket where
  "MeasuredSocket_new =
     \<lparr>m_adapterStatus = Disabled, m_corruptFrames = 0, m_socketOpen = False,
      m_receivesPosted = False\<rparr>"

text \<open>
  The constructor with the default member initialisers of the header: the final sequence number
  starts at \<open>- 1\<close>, the sequence counter at \<open>0\<close>, nothing is running.
\<close>

definition StreamClient_new :: StreamClient where
  "StreamClient_new =
     \<lparr>m_networkInformationEventRevoker = False, m_wlanHandle = False,
      m_primaryState = MeasuredSocket_new, m_secondaryState = MeasuredSocket_new,
      m_frameRate = 0, m_tickInterval = RelativeFiletime 0,
      m_finalSequenceNumber = - 1, m_threadpoolTimer = None, m_running = False,
      m_sequenceNumber = 0, m_latencyData = [],
      m_primaryCorruptFrames = 0, m_secondaryCorruptFrames = 0,
      cb_primaryInterfaceGuid = 0, cb_secondaryInterfaceGuid = 0,
      fx_sent = [], fx_sleptMs = 0, fx_completeEvent = 0\<rparr>"

section \<open>The transport path\<close>

text \<open>
  Modelled from the spec: \<open>MeasuredSocket::Setup\<close> (measured\_socket.cpp, not among the
  sources) binds the socket of the path.
\<close>

definition Setup :: "MeasuredSocket \<Rightarrow> MeasuredSocket" where
  "Setup p = p\<lparr>m_socketOpen := True\<rparr>"

text \<open>
  Modelled from the spec: \<open>MeasuredSocket::PrepareToReceive\<close> (measured\_socket.cpp, not
  among the sources) posts every receive buffer of the pool.
\<close>

definition PrepareToReceive :: "MeasuredSocket \<Rightarrow> MeasuredSocket" where
  "PrepareToReceive p = p\<lparr>m_receivesPosted := True\<rparr>"

text \<open>
  Modelled from the spec: \<open>MeasuredSocket::Cancel\<close> (measured\_socket.cpp, not among the
  sources) closes the socket and halts the outstanding operations of the path, which is then
  without a socket, the \<open>Disabled\<close> state; it is safe on a path that was never set up.
\<close>

definition Cancel :: "MeasuredSocket \<Rightarrow> MeasuredSocket" where
  "Cancel p = p\<lparr>m_adapterStatus := Disabled, m_socketOpen := False, m_receivesPosted := False\<rparr>"

section \<open>Completions\<close>

text \<open>
  \<open>StreamClient::SendCompletion\<close>. The sequence number is a \<open>long long\<close> and
  \<open>MAXSIZE_T\<close> is unsigned, so the guard compares the two as unsigned 64-bit values. The
  index is the sequence number converted to \<open>size_t\<close>; \<open>operator[]\<close> does not check it,
  and an index that is not below the size of the vector is the outcome \<open>OutOfBounds\<close>.
\<close>

definition SendCompletion :: "Interface \<Rightarrow> SendResult \<Rightarrow> StreamClient \<Rightarrow> error + StreamClient" where
  "SendCompletion interface sendState s =
     (if MAXSIZE_T < sr_sequenceNumber sendState then Inl FailFast
      else
        (let idx = unat (sr_sequenceNumber sendState)
         in if length (m_latencyData s) \<le> idx then Inl OutOfBounds
            else
              (let stat = m_latencyData s ! idx
               in if interface = Primary
                  then Inr (s\<lparr>m_latencyData := (m_latencyData s)
                         [idx := stat\<lparr>m_primarySendTimestamp := sr_sendTimestamp sendState\<rparr>]\<rparr>)
                  else Inr (s\<lparr>m_latencyData := (m_latencyData s)
                         [idx := stat\<lparr>m_secondarySendTimestamp := sr_sendTimestamp sendState\<rparr>]\<rparr>))))"

text \<open>
  \<open>StreamClient::ReceiveCompletion\<close>. Both comparisons of the range check are between
  \<open>long long\<close> values, hence signed.
\<close>

definition ReceiveCompletion :: "Interface \<Rightarrow> ReceiveResult \<Rightarrow> StreamClient \<Rightarrow> error + StreamClient" where
  "ReceiveCompletion interface result s =
     (if sint (rr_sequenceNumber result) < 0
         \<or> sint (m_finalSequenceNumber s) \<le> sint (rr_sequenceNumber result)
      then
        (if interface = Primary
         then Inr (s\<lparr>m_primaryCorruptFrames := m_primaryCorruptFrames s + 1\<rparr>)
         else Inr (s\<lparr>m_secondaryCorruptFrames := m_secondaryCorruptFrames s + 1\<rparr>))
      else
        (let idx = unat (rr_sequenceNumber result)
         in if length (m_latencyData s) \<le> idx then Inl OutOfBounds
            else
              (let stat = m_latencyData s ! idx
               in if interface = Primary
                  then Inr (s\<lparr>m_latencyData := (m_latencyData s)
                         [idx := stat\<lparr>m_primarySendTimestamp := rr_sendTimestamp result,
                                       m_primaryEchoTimestamp := rr_echoTimestamp result,
                                       m_primaryReceiveTimestamp := rr_receiveTimestamp result\<rparr>]\<rparr>)
                  else Inr (s\<lparr>m_latencyData := (m_latencyData s)
                         [idx := stat\<lparr>m_secondarySendTimestamp := rr_sendTimestamp result,
                                       m_secondaryEchoTimestamp := rr_echoTimestamp result,
                                       m_secondaryReceiveTimestamp := rr_receiveTimestamp result\<rparr>]\<rparr>))))"

text \<open>
  Modelled from the spec: the transport path counts a corrupt frame in its own counter (the
  code that does so is in measured\_socket.cpp, not among the sources).
\<close>

definition countCorruptFrame :: "MeasuredSocket \<Rightarrow> MeasuredSocket" where
  "countCorruptFrame p = p\<lparr>m_corruptFrames := m_corruptFrames p + 1\<rparr>"

text \<open>
  Modelled from the spec: the receive handler of the transport path (measured\_socket.cpp) is
  not among the sources. By the spec a frame shorter than the fixed header is not parsed and is
  counted as corrupt for its path; any other frame is decoded and handed, with the timestamp of
  its arrival, to the receive completion of the run controller.
\<close>

definition OnReceive ::
    "Interface \<Rightarrow> size_t \<Rightarrow> DatagramHeader \<Rightarrow> llong \<Rightarrow> StreamClient \<Rightarrow> error + StreamClient" where
  "OnReceive interface completedBytes header receiveTimestamp s =
     (if \<not> ValidateBufferLength completedBytes
      then
        (if interface = Primary
         then Inr (s\<lparr>m_primaryState := countCorruptFrame (m_primaryState s)\<rparr>)
         else Inr (s\<lparr>m_secondaryState := countCorruptFrame (m_secondaryState s)\<rparr>))
      else ReceiveCompletion interface
             \<lparr>rr_sequenceNumber = hdr_sequenceNumber header,
              rr_sendTimestamp = hdr_sendTimestamp header,
              rr_echoTimestamp = hdr_echoTimestamp header,
              rr_receiveTimestamp = receiveTimestamp\<rparr> s)"

section \<open>Stop and the send scheduler\<close>

text \<open>
  \<open>StreamClient::Stop\<close>, statement by statement: the running flag, the timer, the
  subscription, the sleep of one second, the two paths, the completion event.
\<close>

definition Stop :: "StreamClient \<Rightarrow> StreamClient" where
  "Stop s =
     (let s1 = s\<lparr>m_running := False\<rparr>;
          s2 = s1\<lparr>m_threadpoolTimer := None\<rparr>;
          s3 = s2\<lparr>m_networkInformationEventRevoker := False\<rparr>;
          s4 = s3\<lparr>fx_sleptMs := fx_sleptMs s3 + 1000\<rparr>;
          s5 = s4\<lparr>m_primaryState := Cancel (m_primaryState s4)\<rparr>;
          s6 = s5\<lparr>m_secondaryState := Cancel (m_secondaryState s5)\<rparr>
      in s6\<lparr>fx_completeEvent := fx_completeEvent s6 + 1\<rparr>)"

text \<open>
  \<open>StreamClient::SendDatagrams\<close>: the sequence number goes to the primary path, to the
  secondary path too when it is \<open>Ready\<close>, and the counter advances by one.
  \<open>MeasuredSocket::SendDatagram\<close> is not among the sources; the datagram it is given is
  recorded in \<open>fx_sent\<close>, and the completion of its send is an event of its own.
\<close>

definition SendDatagrams :: "StreamClient \<Rightarrow> StreamClient" where
  "SendDatagrams s =
     (let s1 = s\<lparr>fx_sent := fx_sent s @ [(Primary, m_sequenceNumber s)]\<rparr>;
          s2 = (if m_adapterStatus (m_secondaryState s1) = Ready
                then s1\<lparr>fx_sent := fx_sent s1 @ [(Secondary, m_sequenceNumber s1)]\<rparr>
                else s1)
      in s2\<lparr>m_sequenceNumber := m_sequenceNumber s2 + 1\<rparr>)"

text \<open>
  The \<open>for\<close> loop of \<open>TimerCallback\<close>. Its counter \<open>i\<close> is an \<open>int\<close>, compared
  with the \<open>long long\<close> frame rate; an iteration that would increment it at \<open>INT_MAX\<close>
  has the outcome \<open>SignedOverflow\<close>.
\<close>

function SendLoop :: "int \<Rightarrow> StreamClient \<Rightarrow> error + StreamClient" where
  "SendLoop i s =
     (if i < sint (m_frameRate s) \<and> sint (m_sequenceNumber s) < sint (m_finalSequenceNumber s)
      then (if i = 2147483647 then Inl SignedOverflow
            else SendLoop (i + 1) (SendDatagrams s))
      else Inr s)"
  by pat_completeness auto
termination
  by (relation "measure (\<lambda>(i, s). nat (sint (m_frameRate s) - i))")
     (auto simp: SendDatagrams_def Let_def)

declare SendLoop.simps [simp del]

definition TimerCallback :: "StreamClient \<Rightarrow> error + StreamClient" where
  "TimerCallback s =
     (if \<not> m_running s then Inr s
      else
        (case SendLoop 0 s of
           Inl e \<Rightarrow> Inl e
         | Inr s1 \<Rightarrow>
             if sint (m_sequenceNumber s1) < sint (m_finalSequenceNumber s1)
             then Inr (s1\<lparr>m_threadpoolTimer := Some (m_tickInterval s1)\<rparr>)
             else if sint (m_finalSequenceNumber s1) < sint (m_sequenceNumber s1)
             then Inl FailFast
             else Inr (Stop s1)))"

text \<open>
  Modelled from the spec: the firing of the timer (threadpool\_timer.h is not among the
  sources). The timer fires only while a callback is pending; firing consumes the pending
  callback and runs \<open>TimerCallback\<close>.
\<close>

definition TimerFired :: "StreamClient \<Rightarrow> error + StreamClient" where
  "TimerFired s =
     (case m_threadpoolTimer s of
        None \<Rightarrow> Inr s
      | Some due \<Rightarrow> TimerCallback (s\<lparr>m_threadpoolTimer := None\<rparr>))"

text \<open>\<open>ticks k\<close>: \<open>k\<close> firings of the timer in a row, nothing else in between.\<close>

fun ticks :: "nat \<Rightarrow> StreamClient \<Rightarrow> error + StreamClient" where
  "ticks 0 s = Inr s"
| "ticks (Suc k) s = (case TimerFired s of Inl e \<Rightarrow> Inl e | Inr s' \<Rightarrow> ticks k s')"

text \<open>The number of datagrams handed to the primary path so far.\<close>

definition primaryFrames :: "StreamClient \<Rightarrow> nat" where
  "primaryFrames s = length (filter (\<lambda>x. fst x = Primary) (fx_sent s))"

text \<open>
  Every sequence number handed to a path lies in \<open>[0, finalSequenceNumber)\<close>; with it, the
  sequence counter is not negative and the final sequence number not below \<open>- 1\<close>.
\<close>

definition sentInRange :: "StreamClient \<Rightarrow> bool" where
  "sentInRange s =
     list_all (\<lambda>x. 0 \<le> sint (snd x) \<and> sint (snd x) < sint (m_finalSequenceNumber s)) (fx_sent s)"

definition counters :: "StreamClient \<Rightarrow> bool" where
  "counters s =
     (sentInRange s \<and> 0 \<le> sint (m_sequenceNumber s) \<and> - 1 \<le> sint (m_finalSequenceNumber s))"

section \<open>The secondary interface\<close>

text \<open>
  What the platform answers during one run of the network-status callback: the interface
  queries of adapters.h, and for each call of the guarded block whether it returns
  (\<open>None\<close>) or throws (\<open>Some\<close> exception).
\<close>

record NetEnv =
  GetPrimaryInterfaceGuid :: guid
  GetSecondaryInterfaceGuid :: "guid \<Rightarrow> guid option"
  IsAdapterConnected :: "guid \<Rightarrow> bool"
  env_ConvertInterfaceGuidToIndex :: "exn option"
  env_Setup :: "exn option"
  env_CheckConnectivity :: "exn option"
  env_PrepareToReceive :: "exn option"

text \<open>The Windows SDK constants of the \<open>catch\<close> clause.\<close>

definition ERROR_NOT_CONNECTED :: "32 word" where
  "ERROR_NOT_CONNECTED = 2250"

definition FACILITY_WIN32 :: "32 word" where
  "FACILITY_WIN32 = 7"

definition HRESULT_FROM_WIN32 :: "32 word \<Rightarrow> hresult" where
  "HRESULT_FROM_WIN32 x =
     (if sint x \<le> 0 then x
      else (x AND 0x0000FFFF) OR push_bit 16 FACILITY_WIN32 OR 0x80000000)"

text \<open>
  The \<open>try\<close> block of the callback (lines 92 to 100): the calls in the order of the source;
  the first exception ends the block and is returned with the path as the calls before it left
  it.
\<close>

definition secondaryTry :: "NetEnv \<Rightarrow> MeasuredSocket \<Rightarrow> (exn \<times> MeasuredSocket) + MeasuredSocket" where
  "secondaryTry env p =
     (case env_ConvertInterfaceGuidToIndex env of
        Some x \<Rightarrow> Inl (x, p)
      | None \<Rightarrow>
          (case env_Setup env of
             Some x \<Rightarrow> Inl (x, p)
           | None \<Rightarrow>
               (let p1 = Setup p
                in case env_CheckConnectivity env of
                     Some x \<Rightarrow> Inl (x, p1)
                   | None \<Rightarrow>
                       (case env_PrepareToReceive env of
                          Some x \<Rightarrow> Inl (x, p1)
                        | None \<Rightarrow> Inr ((PrepareToReceive p1)\<lparr>m_adapterStatus := Ready\<rparr>)))))"

text \<open>
  Lines 88 to 119: the guarded block with its two \<open>catch\<close> clauses. A
  \<open>wil::ResultException\<close> with the code of \<open>ERROR_NOT_CONNECTED\<close> cancels the path and
  leaves it \<open>Connecting\<close>; every other exception fails fast.
\<close>

definition connectSecondary :: "NetEnv \<Rightarrow> StreamClient \<Rightarrow> error + StreamClient" where
  "connectSecondary env s =
     (if m_adapterStatus (m_secondaryState s) = Connecting
         \<and> IsAdapterConnected env (cb_secondaryInterfaceGuid s)
      then
        (case secondaryTry env (m_secondaryState s) of
           Inr p \<Rightarrow> Inr (s\<lparr>m_secondaryState := p\<rparr>)
         | Inl (ResultException code, p) \<Rightarrow>
             if code = HRESULT_FROM_WIN32 ERROR_NOT_CONNECTED
             then Inr (s\<lparr>m_secondaryState := (Cancel p)\<lparr>m_adapterStatus := Connecting\<rparr>\<rparr>)
             else Inl FailFast
         | Inl (_, p) \<Rightarrow> Inl FailFast)
      else Inr s)"

text \<open>
  Lines 62 to 85 of the callback: a change of the primary interface tears an active secondary
  path down and, when a secondary interface exists for the new primary, marks the path
  \<open>Connecting\<close>.
\<close>

definition primaryInterfaceChanged :: "NetEnv \<Rightarrow> StreamClient \<Rightarrow> StreamClient" where
  "primaryInterfaceChanged env s =
     (let connectedInterfaceGuid = GetPrimaryInterfaceGuid env
      in if connectedInterfaceGuid \<noteq> cb_primaryInterfaceGuid s
         then
           (let s1 = s\<lparr>cb_primaryInterfaceGuid := connectedInterfaceGuid\<rparr>;
                s2 = (if m_adapterStatus (m_secondaryState s1) = Ready
                      then s1\<lparr>m_secondaryState := Cancel (m_secondaryState s1)\<rparr>
                      else s1)
            in case GetSecondaryInterfaceGuid env (cb_primaryInterfaceGuid s2) of
                 Some secondaryGuid \<Rightarrow>
                   s2\<lparr>cb_secondaryInterfaceGuid := secondaryGuid,
                      m_secondaryState := (m_secondaryState s2)\<lparr>m_adapterStatus := Connecting\<rparr>\<rparr>
               | None \<Rightarrow> s2)
         else s)"

text \<open>The callback \<open>updateSecondaryInterfaceStatus\<close> (lines 60 to 120), both parts in turn.\<close>

definition updateSecondaryInterfaceStatus :: "NetEnv \<Rightarrow> StreamClient \<Rightarrow> error + StreamClient" where
  "updateSecondaryInterfaceStatus env s = connectSecondary env (primaryInterfaceChanged env s)"

text \<open>
  \<open>StreamClient::SetupSecondaryInterface\<close>: every call builds the callback anew, its two
  captured identifiers initialised to the zero \<open>guid\<close>, runs it once and subscribes it.
\<close>

definition SetupSecondaryInterface :: "NetEnv \<Rightarrow> StreamClient \<Rightarrow> error + StreamClient" where
  "SetupSecondaryInterface env s =
     (if \<not> m_wlanHandle s then Inr s
      else
        (case updateSecondaryInterfaceStatus env
                (s\<lparr>cb_primaryInterfaceGuid := 0, cb_secondaryInterfaceGuid := 0\<rparr>) of
           Inl e \<Rightarrow> Inl e
         | Inr s1 \<Rightarrow> Inr (s1\<lparr>m_networkInformationEventRevoker := True\<rparr>)))"

text \<open>
  \<open>StreamClient::RequestSecondaryWlanConnection\<close>: the handle to the wlan interface is
  opened once and kept.
\<close>

definition RequestSecondaryWlanConnection :: "StreamClient \<Rightarrow> StreamClient" where
  "RequestSecondaryWlanConnection s = (if \<not> m_wlanHandle s then s\<lparr>m_wlanHandle := True\<rparr> else s)"

section \<open>Start\<close>

text \<open>
  \<open>std::vector::resize\<close>: a size beyond \<open>PTRDIFF_MAX\<close> (a \<open>size_t\<close> that reads as a
  negative \<open>long long\<close>) exceeds \<open>max_size\<close> whatever the size of a record, and throws;
  below it the vector is cut or filled with zero records (the allocation itself is taken to
  succeed).
\<close>

definition vector_resize :: "size_t \<Rightarrow> LatencyData list \<Rightarrow> error + LatencyData list" where
  "vector_resize n v =
     (if sint n < 0 then Inl (Uncaught LengthError)
      else Inr (take (unat n) v @ replicate (unat n - length v) LatencyData_zero))"

text \<open>What the platform answers during one call of \<open>Start\<close>.\<close>

record StartEnv =
  env_primarySetup :: "exn option"
  env_primaryCheckConnectivity :: "exn option"
  env_primaryPrepareToReceive :: "exn option"
  env_net :: NetEnv

text \<open>
  \<open>StreamClient::Start\<close>, statement by statement. The three arguments are
  \<open>unsigned long\<close> and are widened to \<open>long long\<close> at the calls. The guard before
  \<open>resize\<close> compares the \<open>long long\<close> final sequence number with the unsigned
  \<open>MAXSIZE_T\<close>, as unsigned values.
\<close>

definition Start :: "ulong \<Rightarrow> ulong \<Rightarrow> ulong \<Rightarrow> StartEnv \<Rightarrow> StreamClient \<Rightarrow> error + StreamClient" where
  "Start sendBitRate sendFrameRate duration env s =
     (let s1 = (if m_running s then Stop s else s);
          s2 = s1\<lparr>m_frameRate := ucast sendFrameRate\<rparr>
      in case CalculateTickInterval (ucast sendBitRate) (ucast sendFrameRate) c_bufferSize of
           Inl e \<Rightarrow> Inl e
         | Inr tickInterval \<Rightarrow>
             (let s3 = s2\<lparr>m_tickInterval := ConvertHundredNanosToRelativeFiletime tickInterval\<rparr>
              in case CalculateNumberOfDatagramToSend (ucast duration) (ucast sendBitRate) c_bufferSize of
                   Inl e \<Rightarrow> Inl e
                 | Inr nbDatagramToSend \<Rightarrow>
                     (let s4 = s3\<lparr>m_finalSequenceNumber := m_finalSequenceNumber s3 + nbDatagramToSend\<rparr>
                      in if MAXSIZE_T < m_finalSequenceNumber s4 then Inl FailFast
                         else
                           (case vector_resize (m_finalSequenceNumber s4) (m_latencyData s4) of
                              Inl e \<Rightarrow> Inl e
                            | Inr v \<Rightarrow>
                                (let s5 = s4\<lparr>m_latencyData := v\<rparr>
                                 in case env_primarySetup env of
                                      Some x \<Rightarrow> Inl (Uncaught x)
                                    | None \<Rightarrow>
                                        (let s6 = s5\<lparr>m_primaryState := Setup (m_primaryState s5)\<rparr>
                                         in case env_primaryCheckConnectivity env of
                                              Some x \<Rightarrow> Inl (Uncaught x)
                                            | None \<Rightarrow>
                                                (case SetupSecondaryInterface (env_net env) s6 of
                                                   Inl e \<Rightarrow> Inl e
                                                 | Inr s7 \<Rightarrow>
                                                     (case env_primaryPrepareToReceive env of
                                                        Some x \<Rightarrow> Inl (Uncaught x)
                                                      | None \<Rightarrow>
                                                          (let s8 = s7\<lparr>m_primaryState :=
                                                                 (PrepareToReceive (m_primaryState s7))
                                                                   \<lparr>m_adapterStatus := Ready\<rparr>\<rparr>;
                                                               s9 = s8\<lparr>m_running := True\<rparr>
                                                           in Inr (s9\<lparr>m_threadpoolTimer :=
                                                                 Some (m_tickInterval s9)\<rparr>))))))))))"

section \<open>Runs of the client\<close>

text \<open>
  The calls that reach a client, one at a time: the public operations, a firing of the timer,
  the completions of the two paths and a network-status notification (delivered only while the
  subscription is held).
\<close>

datatype event =
    EvRequestSecondaryWlanConnection
  | EvStart ulong ulong ulong StartEnv
  | EvStop
  | EvTimerFired
  | EvSendCompletion Interface SendResult
  | EvReceiveCompletion Interface ReceiveResult
  | EvNetworkStatusChanged NetEnv

fun step :: "event \<Rightarrow> StreamClient \<Rightarrow> error + StreamClient" where
  "step EvRequestSecondaryWlanConnection s = Inr (RequestSecondaryWlanConnection s)"
| "step (EvStart sendBitRate sendFrameRate duration env) s = Start sendBitRate sendFrameRate duration env s"
| "step EvStop s = Inr (Stop s)"
| "step EvTimerFired s = TimerFired s"
| "step (EvSendCompletion interface sendState) s = SendCompletion interface sendState s"
| "step (EvReceiveCompletion interface result) s = ReceiveCompletion interface result s"
| "step (EvNetworkStatusChanged env) s =
     (if m_networkInformationEventRevoker s then updateSecondaryInterfaceStatus env s else Inr s)"

fun run :: "event list \<Rightarrow> StreamClient \<Rightarrow> error + StreamClient" where
  "run [] s = Inr s"
| "run (ev # evs) s = (case step ev s of Inl e \<Rightarrow> Inl e | Inr s' \<Rightarrow> run evs s')"

text \<open>The datagram count a \<open>Start\<close> event plans; no other event plans any.\<close>

fun planned :: "event \<Rightarrow> llong" where
  "planned (EvStart sendBitRate sendFrameRate duration env) =
     (case CalculateNumberOfDatagramToSend (ucast duration) (ucast sendBitRate) c_bufferSize of
        Inl e \<Rightarrow> 0
      | Inr nbDatagramToSend \<Rightarrow> nbDatagramToSend)"
| "planned ev = 0"

section \<open>Scenarios\<close>

text \<open>
  A platform without a secondary interface on which every call succeeds, and the scenario of the
  spec: \<open>Start\<close> with 2,000,000 bits per second, 50 frames per tick and 10 seconds on a
  client that was just constructed.
\<close>

definition quietNet :: NetEnv where
  "quietNet =
     \<lparr>GetPrimaryInterfaceGuid = 0, GetSecondaryInterfaceGuid = (\<lambda>g. None),
      IsAdapterConnected = (\<lambda>g. False), env_ConvertInterfaceGuidToIndex = None,
      env_Setup = None, env_CheckConnectivity = None, env_PrepareToReceive = None\<rparr>"

definition reachable :: StartEnv where
  "reachable =
     \<lparr>env_primarySetup = None, env_primaryCheckConnectivity = None,
      env_primaryPrepareToReceive = None, env_net = quietNet\<rparr>"

definition scenario :: "error + StreamClient" where
  "scenario = Start 2000000 50 10 reachable StreamClient_new"

text \<open>
  The shortest run \<open>Start\<close> can set up: 8192 bits per second for one second plan a single
  datagram, so the final sequence number is 0.
\<close>

definition shortest :: "error + StreamClient" where
  "shortest = Start 8192 1 1 reachable StreamClient_new"

text \<open>
  The scenario of the spec with two frames per tick, after \<open>Start\<close> and the first firing of
  the timer.
\<close>

definition firstTick :: "error + StreamClient" where
  "firstTick = run [EvStart 2000000 2 10 reachable, EvTimerFired] StreamClient_new"

text \<open>
  A client with a single planned frame whose record already holds an echo timestamp, and a
  receive completion for that frame that carries no echo timestamp.
\<close>

definition oneRecord :: StreamClient where
  "oneRecord =
     StreamClient_new
       \<lparr>m_finalSequenceNumber := 1,
        m_latencyData := [LatencyData_zero\<lparr>m_primaryEchoTimestamp := 150\<rparr>]\<rparr>"

definition unechoed :: ReceiveResult where
  "unechoed =
     \<lparr>rr_sequenceNumber = 0, rr_sendTimestamp = 100, rr_echoTimestamp = 0,
      rr_receiveTimestamp = 300\<rparr>"

text \<open>
  A client whose secondary path is \<open>Connecting\<close>, and a platform that reports the secondary
  interface connected; the outcomes of the four calls of the guarded block are the parameters.
\<close>

definition connecting :: StreamClient where
  "connecting =
     StreamClient_new
       \<lparr>m_wlanHandle := True,
        m_secondaryState := MeasuredSocket_new\<lparr>m_adapterStatus := Connecting\<rparr>\<rparr>"

definition connectedNet :: "exn option \<Rightarrow> exn option \<Rightarrow> exn option \<Rightarrow> exn option \<Rightarrow> NetEnv" where
  "connectedNet convert setup check prepare =
     \<lparr>GetPrimaryInterfaceGuid = 0, GetSecondaryInterfaceGuid = (\<lambda>g. None),
      IsAdapterConnected = (\<lambda>g. True), env_ConvertInterfaceGuidToIndex = convert,
      env_Setup = setup, env_CheckConnectivity = check, env_PrepareToReceive = prepare\<rparr>"

text \<open>The exception of the \<open>catch\<close> clause that is retried.\<close>

definition notConnected :: exn where
  "notConnected = ResultException (HRESULT_FROM_WIN32 ERROR_NOT_CONNECTED)"

section \<open>Facts about 64-bit values\<close>

lemma sint_bounds64: "- (2 ^ 63) \<le> sint (x::64 word)" "sint (x::64 word) < 2 ^ 63"
  using sint_ge [of x] sint_lt [of x] by simp_all

lemma uint_ge_m63: "- (2 ^ 63) \<le> uint w"
proof -
  have "(- (2 ^ 63) :: int) \<le> 0" by simp
  then show ?thesis using uint_nonnegative [of w] by (rule order_trans)
qed

lemma sint_succ: "sint (x::64 word) < sint (y::64 word) \<Longrightarrow> sint (x + 1) = sint x + 1"
proof -
  assume a: "sint x < sint y"
  have r: "- (2 ^ 63) \<le> sint x + 1" "sint x + 1 < 2 ^ 63"
    using a sint_bounds64 [of x] sint_bounds64 [of y] by auto
  have "sint (x + 1) = signed_take_bit 63 (sint x + 1)"
    by (simp add: sint_word_ariths)
  also have "\<dots> = sint x + 1"
    using r by (simp add: signed_take_bit_int_eq_self)
  finally show ?thesis .
qed

lemma uint_of_nonneg: "0 \<le> sint (w :: 64 word) \<Longrightarrow> uint w = sint w"
proof -
  assume a: "0 \<le> sint w"
  have "sint w < 2 ^ 64" using sint_bounds64(2) [of w] by simp
  then have "take_bit 64 (sint w) = sint w"
    using a by (simp add: take_bit_int_eq_self)
  then show ?thesis using uint_sint [of w] by simp
qed

lemma sint_of_small: "uint (w :: 64 word) < 2 ^ 63 \<Longrightarrow> sint w = uint w"
proof -
  assume a: "uint w < 2 ^ 63"
  have "- (2 ^ 63) \<le> uint w" by (rule uint_ge_m63)
  then have "signed_take_bit 63 (uint w) = uint w"
    using a by (simp add: signed_take_bit_int_eq_self)
  then show ?thesis using sint_uint [of w] by simp
qed

lemma sint_word_of_int_small:
  "- (2 ^ 63) \<le> k \<Longrightarrow> k < 2 ^ 63 \<Longrightarrow> sint (word_of_int k :: 64 word) = k"
  by (simp add: sint_sbintrunc' signed_take_bit_int_eq_self)

lemma llong_div_nonneg:
  assumes "0 \<le> sint (a::64 word)" "0 < sint (b::64 word)"
  shows "sint (llong_div a b) = sint a div sint b"
proof -
  have e: "sint a sdiv sint b = sint a div sint b"
    using assms by (simp add: signed_divide_int_def sgn_if)
  have "0 \<le> sint a div sint b" using assms by (simp add: pos_imp_zdiv_nonneg_iff)
  moreover have "sint a div sint b \<le> sint a"
    using assms zdiv_mono2 [of "sint a" 1 "sint b"] by simp
  ultimately show ?thesis
    using sint_bounds64(2) [of a] by (simp add: llong_div_def e sint_word_of_int_small)
qed

lemma sint_ucast32: "sint (ucast (w :: 32 word) :: 64 word) = uint w"
proof -
  have "uint w < 2 ^ 32" using uint_lt2p [of w] by simp
  then have "uint w < 2 ^ 63" by simp
  moreover have "- (2 ^ 63) \<le> uint w" by (rule uint_ge_m63)
  ultimately have "signed_take_bit 63 (uint w) = uint w"
    by (simp add: signed_take_bit_int_eq_self)
  then show ?thesis by (simp add: signed_ucast_eq)
qed

lemma planned_bounds:
  assumes "CalculateNumberOfDatagramToSend (ucast (duration :: ulong)) (ucast (bitRate :: ulong))
             c_bufferSize = Inr nb"
  shows "0 \<le> sint nb" and "sint nb < 2 ^ 61"
proof -
  let ?d = "ucast duration :: 64 word"
  let ?byteRate = "llong_div (ucast bitRate) 8"
  have nb: "nb = (?d * ?byteRate) div 1024"
    using assms by (simp add: CalculateNumberOfDatagramToSend_def c_bufferSize_def Let_def)
  have d0: "0 \<le> uint duration" by simp
  have d32: "uint duration < 2 ^ 32" using uint_lt2p [of duration] by simp
  have b32: "uint bitRate < 2 ^ 32" using uint_lt2p [of bitRate] by simp
  have sb: "sint ?byteRate = uint bitRate div 8"
    using llong_div_nonneg [of "ucast bitRate" 8] by (simp add: sint_ucast32)
  have B0: "0 \<le> uint bitRate div 8" by (simp add: pos_imp_zdiv_nonneg_iff)
  have B29: "uint bitRate div 8 < 2 ^ 29" using b32 by simp
  have ub: "uint ?byteRate = uint bitRate div 8"
    using uint_of_nonneg [of ?byteRate] sb B0 by simp
  have ud: "uint ?d = uint duration"
    using uint_of_nonneg [of ?d] by (simp add: sint_ucast32)
  let ?P = "uint duration * (uint bitRate div 8)"
  have P0: "0 \<le> ?P" using d0 B0 by (rule mult_nonneg_nonneg)
  have "?P \<le> 2 ^ 32 * (uint bitRate div 8)"
    using d32 B0 by (intro mult_right_mono) simp_all
  also have "\<dots> < 2 ^ 32 * 2 ^ 29" using B29 by (intro mult_strict_left_mono) simp_all
  finally have P61: "?P < 2 ^ 61" by simp
  then have P64: "?P < 2 ^ 64" by simp
  have "uint (?d * ?byteRate) = (uint ?d * uint ?byteRate) mod 2 ^ 64"
    by (simp add: uint_word_ariths)
  also have "\<dots> = ?P mod 2 ^ 64" by (simp only: ud ub)
  also have "\<dots> = ?P" using P0 P64 by simp
  finally have up: "uint (?d * ?byteRate) = ?P" .
  have un: "uint nb = ?P div 1024" by (simp add: nb uint_div_distrib up)
  have "?P div 1024 \<le> ?P" using P0 zdiv_mono2 [of ?P 1 1024] by simp
  then have lt: "?P div 1024 < 2 ^ 61" using P61 by (rule le_less_trans)
  then have "?P div 1024 < 2 ^ 63" by simp
  then have "uint nb < 2 ^ 63" by (simp only: un)
  then have sn: "sint nb = ?P div 1024" using sint_of_small [of nb] un by simp
  show "0 \<le> sint nb" using sn P0 by (simp add: pos_imp_zdiv_nonneg_iff)
  show "sint nb < 2 ^ 61" using sn lt by simp
qed

lemma sint_add_no_wrap:
  assumes "- 1 \<le> sint (a :: 64 word)" "0 \<le> sint (n :: 64 word)" "sint n < 2 ^ 61"
    and "0 \<le> sint (a + n)"
  shows "sint (a + n) = sint a + sint n"
proof -
  let ?t = "sint a + sint n"
  have e: "sint (a + n) = signed_take_bit 63 ?t" by (simp add: sint_word_ariths)
  have lo: "- (2 ^ 63) \<le> ?t" using assms(1,2) by simp
  have "?t < 2 ^ 63"
  proof (rule ccontr)
    assume "\<not> ?t < 2 ^ 63"
    then have ge: "2 ^ 63 \<le> ?t" by simp
    have le: "signed_take_bit 63 ?t \<le> ?t - 2 ^ Suc 63"
      using ge by (rule signed_take_bit_int_less_eq)
    have "?t < 2 ^ 63 + 2 ^ 61" using sint_bounds64(2) [of a] assms(3) by simp
    then have "?t - 2 ^ Suc 63 < 0" by simp
    with le have "signed_take_bit 63 ?t < 0" by (rule le_less_trans)
    then have "sint (a + n) < 0" by (simp only: e)
    then show False using assms(4) by linarith
  qed
  then show ?thesis using e lo by (simp add: signed_take_bit_int_eq_self)
qed


section \<open>The tick interval\<close>

text \<open>
  C8, as amended. For a bit rate of at least 8 bits per second, a frame rate that is not
  negative, a product \<open>datagramSize * frameRate * 10,000,000\<close> below \<open>2^64\<close> and a
  quotient below \<open>2^63\<close>, \<open>CalculateTickInterval\<close> returns
  \<open>datagramSize * frameRate * 10,000,000 / (bitRate / 8)\<close> in hundred-nanosecond units,
  both divisions integer divisions; for 2,000,000 bits per second, 50 frames and 1024 bytes it
  returns 2,048,000.
\<close>

theorem CalculateTickInterval_formula:
  assumes br: "8 \<le> sint bitRate" and fr: "0 \<le> sint frameRate"
    and sm: "uint datagramSize * sint frameRate * 10000000 < 2 ^ 64"
    and qt: "uint datagramSize * sint frameRate * 10000000 div (sint bitRate div 8) < 2 ^ 63"
  shows "(\<exists>r. CalculateTickInterval bitRate frameRate datagramSize = Inr r
            \<and> sint r = uint datagramSize * sint frameRate * 10000000 div (sint bitRate div 8))
         \<and> CalculateTickInterval 2000000 50 1024 = Inr 2048000"
proof -
  let ?P = "uint datagramSize * sint frameRate * 10000000"
  let ?B = "sint bitRate div 8"
  let ?byteRate = "llong_div bitRate 8"
  have b8: "sint ?byteRate = ?B"
    using br llong_div_nonneg [of bitRate 8] by simp
  have Bpos: "1 \<le> ?B" using br by simp
  then have ne: "?byteRate \<noteq> 0" using b8 by auto
  have ub: "uint ?byteRate = ?B"
    using uint_of_nonneg [of ?byteRate] b8 Bpos by simp
  have P0: "0 \<le> ?P" using fr by simp
  have "uint (datagramSize * frameRate * 10000000)
          = (uint datagramSize * uint frameRate * 10000000) mod 2 ^ 64"
    by (simp add: uint_word_ariths mod_simps)
  also have "\<dots> = ?P mod 2 ^ 64" using uint_of_nonneg [OF fr] by simp
  also have "\<dots> = ?P" using P0 sm by simp
  finally have up: "uint (datagramSize * frameRate * 10000000) = ?P" .
  let ?r = "(datagramSize * frameRate * 10000000) div ?byteRate"
  have ur: "uint ?r = ?P div ?B" by (simp add: uint_div_distrib up ub)
  have "uint ?r < 2 ^ 63" using qt by (simp only: ur)
  then have "sint ?r = uint ?r" by (rule sint_of_small)
  then have "sint ?r = ?P div ?B" by (simp only: ur)
  moreover have "CalculateTickInterval bitRate frameRate datagramSize = Inr ?r"
    using ne by (simp add: CalculateTickInterval_def Let_def)
  moreover have "CalculateTickInterval 2000000 50 1024 = Inr 2048000"
    by (simp add: CalculateTickInterval_def llong_div_def Let_def signed_divide_int_def)
  ultimately show ?thesis by blast
qed

theorem CalculateTickInterval_formula_witness:
  "8 \<le> sint (2000000 :: llong) \<and> 0 \<le> sint (50 :: llong)
   \<and> uint (1024 :: ullong) * sint (50 :: llong) * 10000000 < 2 ^ 64
   \<and> uint (1024 :: ullong) * sint (50 :: llong) * 10000000 div (sint (2000000 :: llong) div 8) < 2 ^ 63
   \<and> (\<exists>r. CalculateTickInterval 2000000 50 1024 = Inr r \<and> sint r = 2048000)
   \<and> 2 ^ 63 \<le> uint (1024 :: ullong) * sint (1000000000 :: llong) * 10000000
   \<and> (\<exists>r. CalculateTickInterval 16 1000000000 1024 = Inr r \<and> sint r = 5120000000000000000)"
proof -
  have h1: "8 \<le> sint (2000000 :: llong)" by simp
  have h2: "0 \<le> sint (50 :: llong)" by simp
  have h3: "uint (1024 :: ullong) * sint (50 :: llong) * 10000000 < 2 ^ 64" by simp
  have h4: "uint (1024 :: ullong) * sint (50 :: llong) * 10000000
              div (sint (2000000 :: llong) div 8) < 2 ^ 63" by simp
  have k1: "8 \<le> sint (16 :: llong)" by simp
  have k2: "0 \<le> sint (1000000000 :: llong)" by simp
  have k3: "uint (1024 :: ullong) * sint (1000000000 :: llong) * 10000000 < 2 ^ 64" by simp
  have k4: "uint (1024 :: ullong) * sint (1000000000 :: llong) * 10000000
              div (sint (16 :: llong) div 8) < 2 ^ 63" by simp
  have a: "\<exists>r. CalculateTickInterval 2000000 50 1024 = Inr r \<and> sint r = 2048000"
    using CalculateTickInterval_formula [OF h1 h2 h3 h4] by simp
  have b: "\<exists>r. CalculateTickInterval 16 1000000000 1024 = Inr r \<and> sint r = 5120000000000000000"
    using CalculateTickInterval_formula [OF k1 k2 k3 k4] by simp
  have c: "2 ^ 63 \<le> uint (1024 :: ullong) * sint (1000000000 :: llong) * 10000000" by simp
  from h1 h2 h3 h4 a b c show ?thesis by blast
qed

text \<open>
  The claim as stated fails for positive arguments. A bit rate below 8 bits per second makes the
  byte rate zero and the division traps. For a frame rate of 2,000,000,000 the unsigned product
  wraps modulo \<open>2^64\<close>, so that the value returned is not the quotient of the formula. For
  a frame rate of 1,000,000,000 at 8 bits per second the product does not wrap, but the
  quotient is not below \<open>2^63\<close> and is returned as a negative \<open>long long\<close>.
\<close>

theorem CalculateTickInterval_counterexample:
  "CalculateTickInterval (ucast (7 :: ulong)) (ucast (50 :: ulong)) c_bufferSize = Inl DivideByZero
   \<and> map_sum id sint
        (CalculateTickInterval (ucast (8 :: ulong)) (ucast (2000000000 :: ulong)) c_bufferSize)
       = Inr 2033255926290448384
   \<and> uint c_bufferSize * uint (2000000000 :: ulong) * 10000000 div (uint (8 :: ulong) div 8)
       = 20480000000000000000
   \<and> map_sum id sint
        (CalculateTickInterval (ucast (8 :: ulong)) (ucast (1000000000 :: ulong)) c_bufferSize)
       = Inr (- 8206744073709551616)
   \<and> uint c_bufferSize * uint (1000000000 :: ulong) * 10000000 div (uint (8 :: ulong) div 8)
       = 10240000000000000000"
  by (simp add: CalculateTickInterval_def llong_div_def Let_def signed_divide_int_def
      c_bufferSize_def)


section \<open>What the operations leave unchanged\<close>

lemma connectSecondary_frame:
  assumes "connectSecondary env s = Inr s'"
  shows "s' = s\<lparr>m_secondaryState := m_secondaryState s'\<rparr>"
  using assms
  by (auto simp: connectSecondary_def split: if_splits sum.splits prod.splits exn.splits)

lemma primaryInterfaceChanged_frame:
  "primaryInterfaceChanged env s =
     s\<lparr>m_secondaryState := m_secondaryState (primaryInterfaceChanged env s),
       cb_primaryInterfaceGuid := cb_primaryInterfaceGuid (primaryInterfaceChanged env s),
       cb_secondaryInterfaceGuid := cb_secondaryInterfaceGuid (primaryInterfaceChanged env s)\<rparr>"
  by (simp add: primaryInterfaceChanged_def Let_def split: option.splits)

lemma updateSecondaryInterfaceStatus_frame:
  assumes "updateSecondaryInterfaceStatus env s = Inr s'"
  shows "s' = s\<lparr>m_secondaryState := m_secondaryState s',
                 cb_primaryInterfaceGuid := cb_primaryInterfaceGuid s',
                 cb_secondaryInterfaceGuid := cb_secondaryInterfaceGuid s'\<rparr>"
proof -
  have c: "connectSecondary env (primaryInterfaceChanged env s) = Inr s'"
    using assms by (simp add: updateSecondaryInterfaceStatus_def)
  have "s' = (primaryInterfaceChanged env s)\<lparr>m_secondaryState := m_secondaryState s'\<rparr>"
    by (rule connectSecondary_frame [OF c])
  then show ?thesis
    by (subst (asm) primaryInterfaceChanged_frame) (cases s, cases s', simp)
qed

lemma SetupSecondaryInterface_frame:
  assumes "SetupSecondaryInterface env s = Inr s'"
  shows "s' = s\<lparr>m_secondaryState := m_secondaryState s',
                 cb_primaryInterfaceGuid := cb_primaryInterfaceGuid s',
                 cb_secondaryInterfaceGuid := cb_secondaryInterfaceGuid s',
                 m_networkInformationEventRevoker := m_networkInformationEventRevoker s'\<rparr>"
proof (cases "m_wlanHandle s")
  case False
  then show ?thesis using assms by (simp add: SetupSecondaryInterface_def)
next
  case True
  let ?s0 = "s\<lparr>cb_primaryInterfaceGuid := 0, cb_secondaryInterfaceGuid := 0\<rparr>"
  from True obtain s1 where u: "updateSecondaryInterfaceStatus env ?s0 = Inr s1"
    and e: "s' = s1\<lparr>m_networkInformationEventRevoker := True\<rparr>"
    using assms by (auto simp: SetupSecondaryInterface_def split: sum.splits)
  show ?thesis
    using updateSecondaryInterfaceStatus_frame [OF u] e by (cases s, cases s1, simp)
qed


lemma SetupSecondaryInterface_fields:
  assumes "SetupSecondaryInterface env s = Inr s'"
  shows "m_finalSequenceNumber s' = m_finalSequenceNumber s"
    and "m_latencyData s' = m_latencyData s"
    and "m_tickInterval s' = m_tickInterval s"
    and "m_sequenceNumber s' = m_sequenceNumber s"
    and "m_frameRate s' = m_frameRate s"
  by (subst SetupSecondaryInterface_frame [OF assms], simp)+

lemma updateSecondaryInterfaceStatus_final:
  assumes "updateSecondaryInterfaceStatus env s = Inr s'"
  shows "m_finalSequenceNumber s' = m_finalSequenceNumber s"
  by (subst updateSecondaryInterfaceStatus_frame [OF assms], simp)

lemma Stop_final: "m_finalSequenceNumber (Stop s) = m_finalSequenceNumber s"
  by (simp add: Stop_def Let_def)

lemma vector_resize_length:
  "vector_resize n v = Inr v' \<Longrightarrow> length v' = unat n \<and> 0 \<le> sint n"
  by (auto simp: vector_resize_def split: if_splits)

lemma Start_final:
  assumes "Start sendBitRate sendFrameRate duration env s = Inr s'"
  shows "\<exists>nb. CalculateNumberOfDatagramToSend (ucast duration) (ucast sendBitRate) c_bufferSize = Inr nb
      \<and> m_finalSequenceNumber s' = m_finalSequenceNumber s + nb
      \<and> length (m_latencyData s') = unat (m_finalSequenceNumber s')
      \<and> 0 \<le> sint (m_finalSequenceNumber s')"
  using assms
  by (auto simp: Start_def Let_def Stop_final SetupSecondaryInterface_fields
      dest!: vector_resize_length
      split: sum.splits option.splits if_splits)


lemma Start_tickInterval:
  assumes "Start sendBitRate sendFrameRate duration env s = Inr s'"
  shows "\<exists>r. CalculateTickInterval (ucast sendBitRate) (ucast sendFrameRate) c_bufferSize = Inr r
           \<and> m_tickInterval s' = RelativeFiletime r
           \<and> m_threadpoolTimer s' = Some (RelativeFiletime r)
           \<and> m_running s'"
  using assms
  by (auto simp: Start_def Let_def SetupSecondaryInterface_fields
      ConvertHundredNanosToRelativeFiletime_def
      split: sum.splits option.splits if_splits)

lemma SendDatagrams_frame:
  "SendDatagrams s = s\<lparr>fx_sent := fx_sent (SendDatagrams s), m_sequenceNumber := m_sequenceNumber s + 1\<rparr>"
  by (simp add: SendDatagrams_def Let_def)

lemma SendDatagrams_final: "m_finalSequenceNumber (SendDatagrams s) = m_finalSequenceNumber s"
  by (simp add: SendDatagrams_def Let_def)

lemma SendLoop_final:
  "SendLoop i s = Inr s' \<Longrightarrow> m_finalSequenceNumber s' = m_finalSequenceNumber s"
proof (induction i s rule: SendLoop.induct)
  case (1 i s)
  show ?case
  proof (cases "i < sint (m_frameRate s) \<and> sint (m_sequenceNumber s) < sint (m_finalSequenceNumber s)")
    case True
    with "1.prems" have ne: "i \<noteq> 2147483647" and r: "SendLoop (i + 1) (SendDatagrams s) = Inr s'"
      by (auto simp: SendLoop.simps [of i s] split: if_splits)
    from "1.IH" [OF True ne r] show ?thesis by (simp add: SendDatagrams_final)
  next
    case False
    with "1.prems" show ?thesis by (simp add: SendLoop.simps [of i s])
  qed
qed

lemma TimerCallback_final:
  "TimerCallback s = Inr s' \<Longrightarrow> m_finalSequenceNumber s' = m_finalSequenceNumber s"
  by (auto simp: TimerCallback_def Stop_final dest: SendLoop_final split: if_splits sum.splits)

lemma TimerFired_final:
  "TimerFired s = Inr s' \<Longrightarrow> m_finalSequenceNumber s' = m_finalSequenceNumber s"
  by (auto simp: TimerFired_def dest: TimerCallback_final split: option.splits)

lemma SendCompletion_final:
  "SendCompletion interface sendState s = Inr s' \<Longrightarrow> m_finalSequenceNumber s' = m_finalSequenceNumber s"
  by (auto simp: SendCompletion_def Let_def split: if_splits)

lemma ReceiveCompletion_final:
  "ReceiveCompletion interface result s = Inr s' \<Longrightarrow> m_finalSequenceNumber s' = m_finalSequenceNumber s"
  by (auto simp: ReceiveCompletion_def Let_def split: if_splits)

lemma step_final:
  "step ev s = Inr s' \<Longrightarrow> m_finalSequenceNumber s' = m_finalSequenceNumber s + planned ev"
proof (cases ev)
  case (EvStart b f d env)
  assume "step ev s = Inr s'"
  with EvStart have "Start b f d env s = Inr s'" by simp
  from Start_final [OF this] show ?thesis using EvStart by auto
qed (auto simp: RequestSecondaryWlanConnection_def Stop_final
       dest: TimerFired_final SendCompletion_final ReceiveCompletion_final
             updateSecondaryInterfaceStatus_final split: if_splits)

lemma run_final:
  "run evs s = Inr s' \<Longrightarrow> m_finalSequenceNumber s' = m_finalSequenceNumber s + sum_list (map planned evs)"
proof (induction evs arbitrary: s)
  case Nil
  then show ?case by simp
next
  case (Cons ev evs)
  then obtain s1 where a: "step ev s = Inr s1" and b: "run evs s1 = Inr s'"
    by (auto split: sum.splits)
  show ?case using step_final [OF a] Cons.IH [OF b] by (simp add: add.assoc)
qed

lemma run_append:
  "run (evs @ evs') s = (case run evs s of Inl e \<Rightarrow> Inl e | Inr s1 \<Rightarrow> run evs' s1)"
  by (induction evs arbitrary: s) (auto split: sum.splits)

lemmas scenario_defs = scenario_def Start_def StreamClient_new_def reachable_def quietNet_def
  CalculateTickInterval_def CalculateNumberOfDatagramToSend_def llong_div_def
  signed_divide_int_def c_bufferSize_def MAXSIZE_T_def vector_resize_def
  SetupSecondaryInterface_def Setup_def PrepareToReceive_def
  ConvertHundredNanosToRelativeFiletime_def MeasuredSocket_new_def Let_def

section \<open>The final sequence number\<close>

text \<open>
  C10. The constructor sets the final sequence number to \<open>- 1\<close>, and every event but
  \<open>Start\<close> leaves it alone, so after any run of the client that ends with a \<open>Start\<close>
  (every call having returned) it is the sum of the planned counts of all \<open>Start\<close> calls so
  far minus 1, and the aggregator array holds that many records. For the first \<open>Start\<close> the
  sum is its planned count \<open>D\<close> alone, which gives \<open>D - 1\<close>.
\<close>

theorem final_sequence_number_accumulates:
  assumes "run (evs @ [EvStart sendBitRate sendFrameRate duration env]) StreamClient_new = Inr s'"
  shows "m_finalSequenceNumber StreamClient_new = - 1
         \<and> m_finalSequenceNumber s'
             = sum_list (map planned evs) + planned (EvStart sendBitRate sendFrameRate duration env) - 1
         \<and> length (m_latencyData s') = unat (m_finalSequenceNumber s')"
proof -
  have i: "m_finalSequenceNumber StreamClient_new = - 1"
    by (simp add: StreamClient_new_def)
  from assms obtain s1 where "run evs StreamClient_new = Inr s1"
    and st: "Start sendBitRate sendFrameRate duration env s1 = Inr s'"
    by (auto simp: run_append split: sum.splits)
  from Start_final [OF st] have l: "length (m_latencyData s') = unat (m_finalSequenceNumber s')"
    by blast
  from run_final [OF assms] i l show ?thesis by simp
qed

theorem final_sequence_number_accumulates_witness:
  "\<exists>s'. run ([EvStart 2000000 50 10 reachable] @ [EvStart 2000000 50 10 reachable]) StreamClient_new
           = Inr s'
     \<and> m_finalSequenceNumber s' = 4881 \<and> length (m_latencyData s') = 4881"
proof -
  have "\<exists>s'. run ([EvStart 2000000 50 10 reachable] @ [EvStart 2000000 50 10 reachable])
               StreamClient_new = Inr s'"
    by (simp add: scenario_defs Stop_def Cancel_def)
  then obtain s' where
    r: "run ([EvStart 2000000 50 10 reachable] @ [EvStart 2000000 50 10 reachable]) StreamClient_new
          = Inr s'"
    by blast
  from final_sequence_number_accumulates [OF r]
  have "m_finalSequenceNumber s' = 4881
        \<and> length (m_latencyData s') = unat (m_finalSequenceNumber s')"
    by (simp add: CalculateNumberOfDatagramToSend_def llong_div_def signed_divide_int_def
        c_bufferSize_def Let_def)
  then show ?thesis using r by auto
qed

section \<open>Completions and the aggregator\<close>

lemma index_in_range:
  assumes "0 \<le> sint (i :: 64 word)" "sint i < sint (n :: 64 word)"
  shows "unat i < unat n"
proof -
  have "uint i = sint i" using assms(1) by (rule uint_of_nonneg)
  moreover have "uint n = sint n" using assms by (intro uint_of_nonneg) simp
  ultimately show ?thesis using assms by (simp add: unat_eq_nat_uint nat_less_iff del: nat_uint_eq)
qed

text \<open>
  A send completion whose sequence number, as an index, lies inside the aggregator array writes
  the send timestamp of its path in the record of that sequence number and nothing else.
\<close>

lemma SendCompletion_in_range:
  assumes "unat (sr_sequenceNumber sendState) < length (m_latencyData s)"
  shows "\<exists>s'. SendCompletion interface sendState s = Inr s'
           \<and> s' = s\<lparr>m_latencyData := m_latencyData s'\<rparr>
           \<and> length (m_latencyData s') = length (m_latencyData s)
           \<and> (\<forall>j. j \<noteq> unat (sr_sequenceNumber sendState)
                 \<longrightarrow> m_latencyData s' ! j = m_latencyData s ! j)
           \<and> m_latencyData s' ! unat (sr_sequenceNumber sendState)
               = (if interface = Primary
                  then (m_latencyData s ! unat (sr_sequenceNumber sendState))
                         \<lparr>m_primarySendTimestamp := sr_sendTimestamp sendState\<rparr>
                  else (m_latencyData s ! unat (sr_sequenceNumber sendState))
                         \<lparr>m_secondarySendTimestamp := sr_sendTimestamp sendState\<rparr>)"
proof -
  have "\<not> MAXSIZE_T < sr_sequenceNumber sendState"
    by (simp add: MAXSIZE_T_def not_less)
  then show ?thesis
    using assms by (cases interface) (simp_all add: SendCompletion_def Let_def)
qed


text \<open>
  In every state a client reaches from its construction, the aggregator array holds as many
  records as the final sequence number says (or none, before the first \<open>Start\<close>), so the
  range check of \<open>ReceiveCompletion\<close> keeps its index inside the array.
\<close>

lemma SendLoop_latencyData:
  "SendLoop i s = Inr s' \<Longrightarrow> m_latencyData s' = m_latencyData s"
proof (induction i s rule: SendLoop.induct)
  case (1 i s)
  show ?case
  proof (cases "i < sint (m_frameRate s) \<and> sint (m_sequenceNumber s) < sint (m_finalSequenceNumber s)")
    case True
    with "1.prems" have ne: "i \<noteq> 2147483647" and r: "SendLoop (i + 1) (SendDatagrams s) = Inr s'"
      by (auto simp: SendLoop.simps [of i s] split: if_splits)
    from "1.IH" [OF True ne r] show ?thesis by (simp add: SendDatagrams_def Let_def)
  next
    case False
    with "1.prems" show ?thesis by (simp add: SendLoop.simps [of i s])
  qed
qed

lemma Stop_latencyData: "m_latencyData (Stop s) = m_latencyData s"
  by (simp add: Stop_def Let_def)

lemma TimerFired_latencyData:
  "TimerFired s = Inr s' \<Longrightarrow> m_latencyData s' = m_latencyData s"
  by (auto simp: TimerFired_def TimerCallback_def Stop_latencyData dest: SendLoop_latencyData
      split: option.splits if_splits sum.splits)

lemma SendCompletion_length:
  "SendCompletion interface sendState s = Inr s' \<Longrightarrow> length (m_latencyData s') = length (m_latencyData s)"
  by (auto simp: SendCompletion_def Let_def split: if_splits)

lemma ReceiveCompletion_length:
  "ReceiveCompletion interface result s = Inr s' \<Longrightarrow> length (m_latencyData s') = length (m_latencyData s)"
  by (auto simp: ReceiveCompletion_def Let_def split: if_splits)

lemma updateSecondaryInterfaceStatus_latencyData:
  assumes "updateSecondaryInterfaceStatus env s = Inr s'"
  shows "m_latencyData s' = m_latencyData s"
  by (subst updateSecondaryInterfaceStatus_frame [OF assms], simp)

lemma step_aggregator:
  assumes "step ev s = Inr s'"
    and "length (m_latencyData s) = unat (m_finalSequenceNumber s)
         \<or> m_finalSequenceNumber s = - 1 \<and> m_latencyData s = []"
  shows "length (m_latencyData s') = unat (m_finalSequenceNumber s')
         \<or> m_finalSequenceNumber s' = - 1 \<and> m_latencyData s' = []"
proof (cases ev)
  case (EvStart b f d env)
  with assms(1) have "Start b f d env s = Inr s'" by simp
  from Start_final [OF this] show ?thesis by blast
next
  case EvRequestSecondaryWlanConnection
  with assms show ?thesis by (auto simp: RequestSecondaryWlanConnection_def)
next
  case EvStop
  with assms show ?thesis by (auto simp: Stop_final Stop_latencyData)
next
  case EvTimerFired
  with assms(1) have t: "TimerFired s = Inr s'" by simp
  show ?thesis using assms(2) by (simp add: TimerFired_final [OF t] TimerFired_latencyData [OF t])
next
  case (EvSendCompletion i r)
  with assms(1) have t: "SendCompletion i r s = Inr s'" by simp
  show ?thesis using assms(2) SendCompletion_length [OF t]
    by (auto simp: SendCompletion_final [OF t])
next
  case (EvReceiveCompletion i r)
  with assms(1) have t: "ReceiveCompletion i r s = Inr s'" by simp
  show ?thesis using assms(2) ReceiveCompletion_length [OF t]
    by (auto simp: ReceiveCompletion_final [OF t])
next
  case (EvNetworkStatusChanged env)
  show ?thesis
  proof (cases "m_networkInformationEventRevoker s")
    case True
    with assms(1) EvNetworkStatusChanged have t: "updateSecondaryInterfaceStatus env s = Inr s'"
      by simp
    show ?thesis using assms(2)
      by (simp add: updateSecondaryInterfaceStatus_final [OF t]
          updateSecondaryInterfaceStatus_latencyData [OF t])
  next
    case False
    with assms EvNetworkStatusChanged show ?thesis by simp
  qed
qed

lemma run_aggregator:
  assumes "run evs s = Inr s'"
    and "length (m_latencyData s) = unat (m_finalSequenceNumber s)
         \<or> m_finalSequenceNumber s = - 1 \<and> m_latencyData s = []"
  shows "length (m_latencyData s') = unat (m_finalSequenceNumber s')
         \<or> m_finalSequenceNumber s' = - 1 \<and> m_latencyData s' = []"
  using assms
proof (induction evs arbitrary: s)
  case Nil
  then show ?case by simp
next
  case (Cons ev evs)
  then obtain s1 where a: "step ev s = Inr s1" and b: "run evs s1 = Inr s'"
    by (auto split: sum.splits)
  show ?case by (rule Cons.IH [OF b step_aggregator [OF a Cons.prems(2)]])
qed

lemma ReceiveCompletion_never_out_of_bounds:
  assumes "run evs StreamClient_new = Inr s"
  shows "ReceiveCompletion interface result s \<noteq> Inl OutOfBounds"
proof -
  have "length (m_latencyData StreamClient_new) = unat (m_finalSequenceNumber StreamClient_new)
         \<or> m_finalSequenceNumber StreamClient_new = - 1 \<and> m_latencyData StreamClient_new = []"
    by (simp add: StreamClient_new_def)
  from run_aggregator [OF assms this]
  consider (a) "length (m_latencyData s) = unat (m_finalSequenceNumber s)"
    | (b) "m_finalSequenceNumber s = - 1" by blast
  then show ?thesis
  proof cases
    case a
    show ?thesis
    proof (cases "0 \<le> sint (rr_sequenceNumber result)
                  \<and> sint (rr_sequenceNumber result) < sint (m_finalSequenceNumber s)")
      case True
      then have "unat (rr_sequenceNumber result) < length (m_latencyData s)"
        using index_in_range [of "rr_sequenceNumber result" "m_finalSequenceNumber s"] a by simp
      then show ?thesis by (cases interface) (simp_all add: ReceiveCompletion_def Let_def)
    next
      case False
      then show ?thesis by (cases interface) (auto simp: ReceiveCompletion_def)
    qed
  next
    case b
    then show ?thesis by (cases interface) (auto simp: ReceiveCompletion_def)
  qed
qed


text \<open>
  The sequence numbers the client hands to its paths stay in \<open>[0, finalSequenceNumber)\<close>:
  \<open>TimerCallback\<close> sends only below the final sequence number, and \<open>Start\<close> never
  lowers it.
\<close>

lemma counters_same:
  assumes "fx_sent s' = fx_sent s" "m_sequenceNumber s' = m_sequenceNumber s"
    "m_finalSequenceNumber s' = m_finalSequenceNumber s" "counters s"
  shows "counters s'"
  using assms by (simp add: counters_def sentInRange_def)

lemma SendDatagrams_counters:
  assumes "counters s" "sint (m_sequenceNumber s) < sint (m_finalSequenceNumber s)"
  shows "counters (SendDatagrams s)"
proof -
  have q: "sint (m_sequenceNumber s + 1) = sint (m_sequenceNumber s) + 1"
    using assms(2) by (rule sint_succ)
  show ?thesis
    using assms q by (simp add: counters_def sentInRange_def SendDatagrams_def Let_def)
qed

lemma SendLoop_counters:
  "SendLoop i s = Inr s' \<Longrightarrow> counters s \<Longrightarrow> counters s'"
proof (induction i s rule: SendLoop.induct)
  case (1 i s)
  show ?case
  proof (cases "i < sint (m_frameRate s) \<and> sint (m_sequenceNumber s) < sint (m_finalSequenceNumber s)")
    case True
    with "1.prems" have ne: "i \<noteq> 2147483647" and r: "SendLoop (i + 1) (SendDatagrams s) = Inr s'"
      by (auto simp: SendLoop.simps [of i s] split: if_splits)
    have "counters (SendDatagrams s)" using "1.prems"(2) True by (simp add: SendDatagrams_counters)
    with "1.IH" [OF True ne r] show ?thesis by simp
  next
    case False
    with "1.prems" show ?thesis by (simp add: SendLoop.simps [of i s])
  qed
qed

lemma Stop_counters: "counters (Stop s) = counters s"
  by (simp add: counters_def sentInRange_def Stop_def Let_def)

lemma timer_counters: "counters (s\<lparr>m_threadpoolTimer := t\<rparr>) = counters s"
  by (simp add: counters_def sentInRange_def)

lemma TimerFired_counters:
  "TimerFired s = Inr s' \<Longrightarrow> counters s \<Longrightarrow> counters s'"
  by (auto simp: TimerFired_def TimerCallback_def Stop_counters timer_counters
      dest!: SendLoop_counters split: option.splits if_splits sum.splits)

lemma SendCompletion_counters:
  "SendCompletion interface sendState s = Inr s' \<Longrightarrow> counters s \<Longrightarrow> counters s'"
  by (auto simp: SendCompletion_def Let_def counters_def sentInRange_def split: if_splits)

lemma ReceiveCompletion_counters:
  "ReceiveCompletion interface result s = Inr s' \<Longrightarrow> counters s \<Longrightarrow> counters s'"
  by (auto simp: ReceiveCompletion_def Let_def counters_def sentInRange_def split: if_splits)

lemma updateSecondaryInterfaceStatus_counters:
  assumes "updateSecondaryInterfaceStatus env s = Inr s'" "counters s"
  shows "counters s'"
proof -
  have "fx_sent s' = fx_sent s" "m_sequenceNumber s' = m_sequenceNumber s"
    "m_finalSequenceNumber s' = m_finalSequenceNumber s"
    by (subst updateSecondaryInterfaceStatus_frame [OF assms(1)], simp)+
  then show ?thesis using assms(2) by (rule counters_same)
qed

lemma Start_sent:
  assumes "Start sendBitRate sendFrameRate duration env s = Inr s'"
  shows "fx_sent s' = fx_sent s \<and> m_sequenceNumber s' = m_sequenceNumber s"
proof -
  have f: "fx_sent t' = fx_sent t \<and> m_sequenceNumber t' = m_sequenceNumber t"
    if "SetupSecondaryInterface e t = Inr t'" for e t t'
    by (subst SetupSecondaryInterface_frame [OF that], simp)+
  show ?thesis
    using assms
    by (auto simp: Start_def Let_def Stop_def dest!: f split: sum.splits option.splits if_splits)
qed

lemma Start_counters:
  assumes st: "Start sendBitRate sendFrameRate duration env s = Inr s'" and c: "counters s"
  shows "counters s'"
proof -
  from Start_final [OF st] obtain nb where
    nb: "CalculateNumberOfDatagramToSend (ucast duration) (ucast sendBitRate) c_bufferSize = Inr nb"
    and f: "m_finalSequenceNumber s' = m_finalSequenceNumber s + nb"
    and p: "0 \<le> sint (m_finalSequenceNumber s')"
    by blast
  have lo: "- 1 \<le> sint (m_finalSequenceNumber s)" using c by (simp add: counters_def)
  have "sint (m_finalSequenceNumber s + nb) = sint (m_finalSequenceNumber s) + sint nb"
    using lo planned_bounds [OF nb] p by (intro sint_add_no_wrap) (simp_all add: f)
  then have mono: "sint (m_finalSequenceNumber s) \<le> sint (m_finalSequenceNumber s')"
    using planned_bounds(1) [OF nb] by (simp add: f)
  have "sentInRange s'"
    using c mono Start_sent [OF st]
    by (auto simp: counters_def sentInRange_def list_all_iff)
  then show ?thesis
    using c p Start_sent [OF st] by (simp add: counters_def)
qed

lemma wlan_counters: "counters (s\<lparr>m_wlanHandle := b\<rparr>) = counters s"
  by (simp add: counters_def sentInRange_def)

lemma step_counters:
  "step ev s = Inr s' \<Longrightarrow> counters s \<Longrightarrow> counters s'"
  by (cases ev)
     (auto simp: RequestSecondaryWlanConnection_def Stop_counters wlan_counters
       intro: Start_counters TimerFired_counters SendCompletion_counters ReceiveCompletion_counters
         updateSecondaryInterfaceStatus_counters split: if_splits)

lemma run_counters:
  "run evs s = Inr s' \<Longrightarrow> counters s \<Longrightarrow> counters s'"
proof (induction evs arbitrary: s)
  case Nil
  then show ?case by simp
next
  case (Cons ev evs)
  then obtain s1 where a: "step ev s = Inr s1" and b: "run evs s1 = Inr s'"
    by (auto split: sum.splits)
  show ?case by (rule Cons.IH [OF b step_counters [OF a Cons.prems(2)]])
qed

lemma counters_new: "counters StreamClient_new"
  by (simp add: counters_def sentInRange_def StreamClient_new_def)


text \<open>
  Which event changes a record: \<open>Start\<close> keeps the records the array already has, and of all
  other events only a completion touches the array, at the index of its sequence number.
\<close>

lemma vector_resize_records:
  assumes "vector_resize n v = Inr v'" "i < length v" "i < length v'"
  shows "v' ! i = v ! i"
proof -
  from assms(1) have v': "v' = take (unat n) v @ replicate (unat n - length v) LatencyData_zero"
    by (auto simp: vector_resize_def split: if_splits)
  then have "length v' = unat n" by simp
  then have "i < unat n" using assms(3) by simp
  then show ?thesis using assms(2) by (simp add: v' nth_append)
qed

lemma Start_records:
  assumes "Start sendBitRate sendFrameRate duration env s = Inr s'"
    and "i < length (m_latencyData s)" "i < length (m_latencyData s')"
  shows "m_latencyData s' ! i = m_latencyData s ! i"
proof -
  from assms(1) obtain n where
    "vector_resize n (m_latencyData s) = Inr (m_latencyData s')"
    by (auto simp: Start_def Let_def Stop_latencyData SetupSecondaryInterface_fields
        split: sum.splits option.splits if_splits)
  then show ?thesis using assms(2,3) by (rule vector_resize_records)
qed

lemma step_records:
  assumes st: "step ev s = Inr s'"
    and i: "i < length (m_latencyData s)" "i < length (m_latencyData s')"
    and ne: "m_latencyData s' ! i \<noteq> m_latencyData s ! i"
  shows "(\<exists>p r. ev = EvSendCompletion p r \<and> unat (sr_sequenceNumber r) = i)
         \<or> (\<exists>p r. ev = EvReceiveCompletion p r \<and> unat (rr_sequenceNumber r) = i
                \<and> 0 \<le> sint (rr_sequenceNumber r)
                \<and> sint (rr_sequenceNumber r) < sint (m_finalSequenceNumber s))"
proof (cases ev)
  case (EvStart b f d env)
  with st have "Start b f d env s = Inr s'" by simp
  from Start_records [OF this i] ne show ?thesis by simp
next
  case EvRequestSecondaryWlanConnection
  with st ne show ?thesis by (auto simp: RequestSecondaryWlanConnection_def split: if_splits)
next
  case EvStop
  with st ne show ?thesis by (auto simp: Stop_latencyData)
next
  case EvTimerFired
  with st have "TimerFired s = Inr s'" by simp
  from TimerFired_latencyData [OF this] ne show ?thesis by simp
next
  case (EvSendCompletion p r)
  with st have t: "SendCompletion p r s = Inr s'" by simp
  have "unat (sr_sequenceNumber r) = i"
  proof (rule ccontr)
    assume "unat (sr_sequenceNumber r) \<noteq> i"
    then have "m_latencyData s' ! i = m_latencyData s ! i"
      using t by (auto simp: SendCompletion_def Let_def split: if_splits)
    with ne show False by simp
  qed
  then show ?thesis using EvSendCompletion by simp
next
  case (EvReceiveCompletion p r)
  with st have t: "ReceiveCompletion p r s = Inr s'" by simp
  have "unat (rr_sequenceNumber r) = i \<and> 0 \<le> sint (rr_sequenceNumber r)
        \<and> sint (rr_sequenceNumber r) < sint (m_finalSequenceNumber s)"
  proof (rule ccontr)
    assume "\<not> (unat (rr_sequenceNumber r) = i \<and> 0 \<le> sint (rr_sequenceNumber r)
        \<and> sint (rr_sequenceNumber r) < sint (m_finalSequenceNumber s))"
    then have "m_latencyData s' ! i = m_latencyData s ! i"
      using t by (auto simp: ReceiveCompletion_def Let_def split: if_splits)
    with ne show False by simp
  qed
  then show ?thesis using EvReceiveCompletion by simp
next
  case (EvNetworkStatusChanged env)
  show ?thesis
  proof (cases "m_networkInformationEventRevoker s")
    case True
    with st EvNetworkStatusChanged have "updateSecondaryInterfaceStatus env s = Inr s'" by simp
    from updateSecondaryInterfaceStatus_latencyData [OF this] ne show ?thesis by simp
  next
    case False
    with st EvNetworkStatusChanged ne show ?thesis by simp
  qed
qed

lemma ReceiveCompletion_returns:
  assumes "ReceiveCompletion interface result s \<noteq> Inl OutOfBounds"
  shows "\<exists>s'. ReceiveCompletion interface result s = Inr s'
           \<and> length (m_latencyData s') = length (m_latencyData s)
           \<and> (\<forall>j. j \<noteq> unat (rr_sequenceNumber result) \<or> sint (rr_sequenceNumber result) < 0
                    \<or> sint (m_finalSequenceNumber s) \<le> sint (rr_sequenceNumber result)
                 \<longrightarrow> m_latencyData s' ! j = m_latencyData s ! j)"
  using assms by (cases interface) (auto simp: ReceiveCompletion_def Let_def split: if_splits)

text \<open>
  C2, as amended. In every state a client reaches from its construction: the aggregator array
  holds \<open>finalSequenceNumber\<close> records; a receive completion returns and changes no record
  but the one of its sequence number, and none at all when that number is outside
  \<open>[0, finalSequenceNumber)\<close>; every sequence number the client has handed to a path lies in
  \<open>[0, finalSequenceNumber)\<close>, and the send completion carrying it returns and changes no
  record but the one of that number; and an event that changes record \<open>i\<close> is a send or a
  receive completion carrying \<open>i\<close>. \<open>SendCompletion\<close> has no range check of its own: it
  completes the sends of the client, whose numbers \<open>TimerCallback\<close> keeps in range.
\<close>

theorem completions_write_their_record:
  assumes reach: "run evs StreamClient_new = Inr s"
  shows "(0 \<le> sint (m_finalSequenceNumber s)
            \<longrightarrow> length (m_latencyData s) = nat (sint (m_finalSequenceNumber s)))
         \<and> (\<forall>interface result. \<exists>s'. ReceiveCompletion interface result s = Inr s'
               \<and> length (m_latencyData s') = length (m_latencyData s)
               \<and> (\<forall>j. j \<noteq> unat (rr_sequenceNumber result) \<or> sint (rr_sequenceNumber result) < 0
                        \<or> sint (m_finalSequenceNumber s) \<le> sint (rr_sequenceNumber result)
                     \<longrightarrow> m_latencyData s' ! j = m_latencyData s ! j))
         \<and> (\<forall>x \<in> set (fx_sent s).
               0 \<le> sint (snd x) \<and> sint (snd x) < sint (m_finalSequenceNumber s)
               \<and> unat (snd x) < length (m_latencyData s)
               \<and> (\<forall>ts. \<exists>s'. SendCompletion (fst x)
                                 \<lparr>sr_sequenceNumber = snd x, sr_sendTimestamp = ts\<rparr> s = Inr s'
                      \<and> length (m_latencyData s') = length (m_latencyData s)
                      \<and> (\<forall>j. j \<noteq> unat (snd x) \<longrightarrow> m_latencyData s' ! j = m_latencyData s ! j)))
         \<and> (\<forall>ev s' i. step ev s = Inr s' \<and> i < length (m_latencyData s)
                 \<and> i < length (m_latencyData s')
                 \<and> m_latencyData s' ! i \<noteq> m_latencyData s ! i
               \<longrightarrow> (\<exists>p r. ev = EvSendCompletion p r \<and> unat (sr_sequenceNumber r) = i)
                   \<or> (\<exists>p r. ev = EvReceiveCompletion p r \<and> unat (rr_sequenceNumber r) = i
                         \<and> 0 \<le> sint (rr_sequenceNumber r)
                         \<and> sint (rr_sequenceNumber r) < sint (m_finalSequenceNumber s)))"
proof -
  have "length (m_latencyData StreamClient_new) = unat (m_finalSequenceNumber StreamClient_new)
         \<or> m_finalSequenceNumber StreamClient_new = - 1 \<and> m_latencyData StreamClient_new = []"
    by (simp add: StreamClient_new_def)
  from run_aggregator [OF reach this]
  have agg: "length (m_latencyData s) = unat (m_finalSequenceNumber s)
         \<or> m_finalSequenceNumber s = - 1 \<and> m_latencyData s = []" .
  have cnt: "counters s" by (rule run_counters [OF reach counters_new])
  have len: "length (m_latencyData s) = nat (sint (m_finalSequenceNumber s))"
    if "0 \<le> sint (m_finalSequenceNumber s)"
  proof -
    have "m_finalSequenceNumber s \<noteq> - 1" using that by auto
    then have "length (m_latencyData s) = unat (m_finalSequenceNumber s)" using agg by simp
    then show ?thesis using uint_of_nonneg [OF that] by (simp add: unat_eq_nat_uint del: nat_uint_eq)
  qed
  have first: "0 \<le> sint (m_finalSequenceNumber s)
            \<longrightarrow> length (m_latencyData s) = nat (sint (m_finalSequenceNumber s))"
    using len by simp
  have second: "\<forall>interface result. \<exists>s'. ReceiveCompletion interface result s = Inr s'
               \<and> length (m_latencyData s') = length (m_latencyData s)
               \<and> (\<forall>j. j \<noteq> unat (rr_sequenceNumber result) \<or> sint (rr_sequenceNumber result) < 0
                        \<or> sint (m_finalSequenceNumber s) \<le> sint (rr_sequenceNumber result)
                     \<longrightarrow> m_latencyData s' ! j = m_latencyData s ! j)"
    using ReceiveCompletion_returns [OF ReceiveCompletion_never_out_of_bounds [OF reach]]
    by blast
  have third: "\<forall>x \<in> set (fx_sent s).
               0 \<le> sint (snd x) \<and> sint (snd x) < sint (m_finalSequenceNumber s)
               \<and> unat (snd x) < length (m_latencyData s)
               \<and> (\<forall>ts. \<exists>s'. SendCompletion (fst x)
                                 \<lparr>sr_sequenceNumber = snd x, sr_sendTimestamp = ts\<rparr> s = Inr s'
                      \<and> length (m_latencyData s') = length (m_latencyData s)
                      \<and> (\<forall>j. j \<noteq> unat (snd x) \<longrightarrow> m_latencyData s' ! j = m_latencyData s ! j))"
  proof
    fix x assume x: "x \<in> set (fx_sent s)"
    then have r: "0 \<le> sint (snd x)" "sint (snd x) < sint (m_finalSequenceNumber s)"
      using cnt by (auto simp: counters_def sentInRange_def list_all_iff)
    then have "0 \<le> sint (m_finalSequenceNumber s)" by simp
    then have "m_finalSequenceNumber s \<noteq> - 1" by auto
    then have "length (m_latencyData s) = unat (m_finalSequenceNumber s)" using agg by simp
    then have idx: "unat (snd x) < length (m_latencyData s)"
      using index_in_range [OF r] by simp
    have "\<exists>s'. SendCompletion (fst x) \<lparr>sr_sequenceNumber = snd x, sr_sendTimestamp = ts\<rparr> s = Inr s'
                      \<and> length (m_latencyData s') = length (m_latencyData s)
                      \<and> (\<forall>j. j \<noteq> unat (snd x) \<longrightarrow> m_latencyData s' ! j = m_latencyData s ! j)"
      for ts
      using SendCompletion_in_range
        [of "\<lparr>sr_sequenceNumber = snd x, sr_sendTimestamp = ts\<rparr>" s "fst x"] idx
      by auto
    then show "0 \<le> sint (snd x) \<and> sint (snd x) < sint (m_finalSequenceNumber s)
               \<and> unat (snd x) < length (m_latencyData s)
               \<and> (\<forall>ts. \<exists>s'. SendCompletion (fst x)
                                 \<lparr>sr_sequenceNumber = snd x, sr_sendTimestamp = ts\<rparr> s = Inr s'
                      \<and> length (m_latencyData s') = length (m_latencyData s)
                      \<and> (\<forall>j. j \<noteq> unat (snd x) \<longrightarrow> m_latencyData s' ! j = m_latencyData s ! j))"
      using r idx by blast
  qed
  have fourth: "\<forall>ev s' i. step ev s = Inr s' \<and> i < length (m_latencyData s)
                 \<and> i < length (m_latencyData s')
                 \<and> m_latencyData s' ! i \<noteq> m_latencyData s ! i
               \<longrightarrow> (\<exists>p r. ev = EvSendCompletion p r \<and> unat (sr_sequenceNumber r) = i)
                   \<or> (\<exists>p r. ev = EvReceiveCompletion p r \<and> unat (rr_sequenceNumber r) = i
                         \<and> 0 \<le> sint (rr_sequenceNumber r)
                         \<and> sint (rr_sequenceNumber r) < sint (m_finalSequenceNumber s))"
    using step_records by blast
  from first second third fourth show ?thesis by blast
qed


lemmas firstTick_defs = firstTick_def Start_def StreamClient_new_def reachable_def quietNet_def
  CalculateTickInterval_def CalculateNumberOfDatagramToSend_def llong_div_def
  signed_divide_int_def c_bufferSize_def MAXSIZE_T_def vector_resize_def
  SetupSecondaryInterface_def Setup_def PrepareToReceive_def
  ConvertHundredNanosToRelativeFiletime_def MeasuredSocket_new_def Let_def
  TimerFired_def TimerCallback_def SendLoop.simps SendDatagrams_def

theorem completions_write_their_record_witness:
  "\<not> isl firstTick
   \<and> fx_sent (projr firstTick) = [(Primary, 0), (Primary, 1)]
   \<and> sint (m_finalSequenceNumber (projr firstTick)) = 2440
   \<and> length (m_latencyData (projr firstTick)) = 2440
   \<and> (\<exists>s'. SendCompletion Primary \<lparr>sr_sequenceNumber = 1, sr_sendTimestamp = 7\<rparr> (projr firstTick)
              = Inr s'
          \<and> length (m_latencyData s') = 2440
          \<and> m_latencyData s' ! 0 = m_latencyData (projr firstTick) ! 0)
   \<and> (\<exists>s'. ReceiveCompletion Secondary
              \<lparr>rr_sequenceNumber = 1, rr_sendTimestamp = 7, rr_echoTimestamp = 8,
               rr_receiveTimestamp = 9\<rparr> (projr firstTick) = Inr s'
          \<and> length (m_latencyData s') = 2440
          \<and> m_latencyData s' ! 0 = m_latencyData (projr firstTick) ! 0)"
proof -
  have e: "\<not> isl firstTick" and sent: "fx_sent (projr firstTick) = [(Primary, 0), (Primary, 1)]"
    and N: "m_finalSequenceNumber (projr firstTick) = 2440"
    by (simp_all add: firstTick_defs)
  from e have "firstTick = Inr (projr firstTick)" by simp
  then have reach: "run [EvStart 2000000 2 10 reachable, EvTimerFired] StreamClient_new
                      = Inr (projr firstTick)"
    by (simp only: firstTick_def)
  note t = completions_write_their_record [OF reach]
  from t have len: "length (m_latencyData (projr firstTick)) = 2440" by (simp add: N)
  have mem: "(Primary, 1) \<in> set (fx_sent (projr firstTick))" by (simp add: sent)
  from t mem have "\<forall>ts. \<exists>s'. SendCompletion (fst (Primary, 1 :: llong))
                 \<lparr>sr_sequenceNumber = snd (Primary, 1 :: llong), sr_sendTimestamp = ts\<rparr>
                 (projr firstTick) = Inr s'
              \<and> length (m_latencyData s') = length (m_latencyData (projr firstTick))
              \<and> (\<forall>j. j \<noteq> unat (snd (Primary, 1 :: llong))
                     \<longrightarrow> m_latencyData s' ! j = m_latencyData (projr firstTick) ! j)"
    by blast
  then have "\<exists>s'. SendCompletion (fst (Primary, 1 :: llong))
                 \<lparr>sr_sequenceNumber = snd (Primary, 1 :: llong), sr_sendTimestamp = 7\<rparr>
                 (projr firstTick) = Inr s'
              \<and> length (m_latencyData s') = length (m_latencyData (projr firstTick))
              \<and> (\<forall>j. j \<noteq> unat (snd (Primary, 1 :: llong))
                     \<longrightarrow> m_latencyData s' ! j = m_latencyData (projr firstTick) ! j)"
    by (rule spec)
  then obtain s1 where
    s1: "SendCompletion Primary \<lparr>sr_sequenceNumber = 1, sr_sendTimestamp = 7\<rparr> (projr firstTick)
           = Inr s1"
    and l1: "length (m_latencyData s1) = length (m_latencyData (projr firstTick))"
    and j1: "\<forall>j. j \<noteq> unat (snd (Primary, 1 :: llong))
               \<longrightarrow> m_latencyData s1 ! j = m_latencyData (projr firstTick) ! j"
    by auto
  from j1 have "m_latencyData s1 ! 0 = m_latencyData (projr firstTick) ! 0" by simp
  with s1 l1 have a: "\<exists>s'. SendCompletion Primary \<lparr>sr_sequenceNumber = 1, sr_sendTimestamp = 7\<rparr>
                  (projr firstTick) = Inr s'
          \<and> length (m_latencyData s') = 2440
          \<and> m_latencyData s' ! 0 = m_latencyData (projr firstTick) ! 0"
    using len by simp
  from t have "\<exists>s'. ReceiveCompletion Secondary
              \<lparr>rr_sequenceNumber = 1, rr_sendTimestamp = 7, rr_echoTimestamp = 8,
               rr_receiveTimestamp = 9\<rparr> (projr firstTick) = Inr s'
          \<and> length (m_latencyData s') = length (m_latencyData (projr firstTick))
          \<and> (\<forall>j. j \<noteq> unat (rr_sequenceNumber \<lparr>rr_sequenceNumber = 1, rr_sendTimestamp = 7,
                       rr_echoTimestamp = 8, rr_receiveTimestamp = 9\<rparr>)
                    \<or> sint (rr_sequenceNumber \<lparr>rr_sequenceNumber = 1, rr_sendTimestamp = 7,
                       rr_echoTimestamp = 8, rr_receiveTimestamp = 9\<rparr>) < 0
                    \<or> sint (m_finalSequenceNumber (projr firstTick))
                         \<le> sint (rr_sequenceNumber \<lparr>rr_sequenceNumber = 1, rr_sendTimestamp = 7,
                       rr_echoTimestamp = 8, rr_receiveTimestamp = 9\<rparr>)
                 \<longrightarrow> m_latencyData s' ! j = m_latencyData (projr firstTick) ! j)"
    by blast
  then have b: "\<exists>s'. ReceiveCompletion Secondary
              \<lparr>rr_sequenceNumber = 1, rr_sendTimestamp = 7, rr_echoTimestamp = 8,
               rr_receiveTimestamp = 9\<rparr> (projr firstTick) = Inr s'
          \<and> length (m_latencyData s') = 2440
          \<and> m_latencyData s' ! 0 = m_latencyData (projr firstTick) ! 0"
    using len by auto
  from e sent N len a b show ?thesis by simp
qed

text \<open>
  The claim as stated has \<open>SendCompletion\<close> safe for any sequence number. Its guard compares
  the sequence number with \<open>MAXSIZE_T\<close> as unsigned 64-bit values and so never fires; with
  the 2440 records of the scenario of the spec a send completion carrying the sequence number
  \<open>- 1\<close>, or 2440, would index the aggregator array outside its bounds.
\<close>

theorem SendCompletion_out_of_bounds:
  "SendCompletion Primary \<lparr>sr_sequenceNumber = - 1, sr_sendTimestamp = 5\<rparr> (projr scenario)
     = Inl OutOfBounds
   \<and> SendCompletion Primary \<lparr>sr_sequenceNumber = 2440, sr_sendTimestamp = 5\<rparr> (projr scenario)
     = Inl OutOfBounds
   \<and> length (m_latencyData (projr scenario)) = 2440"
  by (simp add: scenario_defs SendCompletion_def unsigned_minus_1_eq_mask mask_eq_exp_minus_1)

text \<open>
  C3, as amended. A receive completion on a path with a sequence number in
  \<open>[0, finalSequenceNumber)\<close> (the aggregator array holding that many records) changes
  nothing but the record of that sequence number, and in it sets the send, the echo and the
  receive timestamp of its path to the values it carries, the echo timestamp also when it is
  zero; the three timestamps of the other path keep their values.
\<close>

theorem ReceiveCompletion_in_range:
  assumes lo: "0 \<le> sint (rr_sequenceNumber result)"
    and hi: "sint (rr_sequenceNumber result) < sint (m_finalSequenceNumber s)"
    and len: "length (m_latencyData s) = unat (m_finalSequenceNumber s)"
  shows "\<exists>s'. ReceiveCompletion interface result s = Inr s'
           \<and> s' = s\<lparr>m_latencyData := m_latencyData s'\<rparr>
           \<and> length (m_latencyData s') = length (m_latencyData s)
           \<and> (\<forall>j. j \<noteq> unat (rr_sequenceNumber result)
                 \<longrightarrow> m_latencyData s' ! j = m_latencyData s ! j)
           \<and> m_latencyData s' ! unat (rr_sequenceNumber result)
               = (if interface = Primary
                  then (m_latencyData s ! unat (rr_sequenceNumber result))
                         \<lparr>m_primarySendTimestamp := rr_sendTimestamp result,
                          m_primaryEchoTimestamp := rr_echoTimestamp result,
                          m_primaryReceiveTimestamp := rr_receiveTimestamp result\<rparr>
                  else (m_latencyData s ! unat (rr_sequenceNumber result))
                         \<lparr>m_secondarySendTimestamp := rr_sendTimestamp result,
                          m_secondaryEchoTimestamp := rr_echoTimestamp result,
                          m_secondaryReceiveTimestamp := rr_receiveTimestamp result\<rparr>)"
proof -
  have i: "unat (rr_sequenceNumber result) < length (m_latencyData s)"
    using index_in_range [OF lo hi] len by simp
  show ?thesis
    using lo hi i by (cases interface) (simp_all add: ReceiveCompletion_def Let_def)
qed

theorem ReceiveCompletion_in_range_witness:
  "0 \<le> sint (rr_sequenceNumber unechoed)
   \<and> sint (rr_sequenceNumber unechoed) < sint (m_finalSequenceNumber oneRecord)
   \<and> length (m_latencyData oneRecord) = unat (m_finalSequenceNumber oneRecord)
   \<and> (\<exists>s'. ReceiveCompletion Primary unechoed oneRecord = Inr s'
         \<and> m_latencyData s' ! 0
             = LatencyData_zero\<lparr>m_primarySendTimestamp := 100, m_primaryEchoTimestamp := 0,
                 m_primaryReceiveTimestamp := 300\<rparr>)"
proof -
  have h1: "0 \<le> sint (rr_sequenceNumber unechoed)" by (simp add: unechoed_def)
  have h2: "sint (rr_sequenceNumber unechoed) < sint (m_finalSequenceNumber oneRecord)"
    by (simp add: unechoed_def oneRecord_def)
  have h3: "length (m_latencyData oneRecord) = unat (m_finalSequenceNumber oneRecord)"
    by (simp add: oneRecord_def)
  from ReceiveCompletion_in_range [OF h1 h2 h3, of Primary]
  obtain s' where r: "ReceiveCompletion Primary unechoed oneRecord = Inr s'"
    and v: "m_latencyData s' ! unat (rr_sequenceNumber unechoed)
         = (m_latencyData oneRecord ! unat (rr_sequenceNumber unechoed))
                         \<lparr>m_primarySendTimestamp := rr_sendTimestamp unechoed,
                          m_primaryEchoTimestamp := rr_echoTimestamp unechoed,
                          m_primaryReceiveTimestamp := rr_receiveTimestamp unechoed\<rparr>"
    by auto
  have "m_latencyData s' ! 0
             = LatencyData_zero\<lparr>m_primarySendTimestamp := 100, m_primaryEchoTimestamp := 0,
                 m_primaryReceiveTimestamp := 300\<rparr>"
    using v by (simp add: unechoed_def oneRecord_def)
  with h1 h2 h3 r show ?thesis by blast
qed

text \<open>
  The claim as stated lets a receive completion write the receive timestamp only, and the echo
  timestamp when it is not zero. Here the record holds no send timestamp yet and an echo
  timestamp of 150; the receive completion, which carries the echo timestamp 0, sets the send
  timestamp to 100 and the echo timestamp to 0.
\<close>

theorem ReceiveCompletion_counterexample:
  "ReceiveCompletion Primary unechoed oneRecord
     = Inr (oneRecord\<lparr>m_latencyData :=
         [LatencyData_zero\<lparr>m_primarySendTimestamp := 100, m_primaryEchoTimestamp := 0,
            m_primaryReceiveTimestamp := 300\<rparr>]\<rparr>)
   \<and> m_primarySendTimestamp (m_latencyData oneRecord ! 0) = 0
   \<and> m_primaryEchoTimestamp (m_latencyData oneRecord ! 0) = 150
   \<and> rr_echoTimestamp unechoed = 0"
  by (simp add: ReceiveCompletion_def oneRecord_def unechoed_def StreamClient_new_def
      LatencyData_zero_def Let_def)

text \<open>
  C4. A receive completion whose sequence number is negative or not below the final sequence
  number returns, leaves every aggregator record as it was, adds one to the corrupt-frame
  counter of the path it arrived on and leaves the counter of the other path alone.
\<close>

theorem ReceiveCompletion_out_of_range:
  assumes "sint (rr_sequenceNumber result) < 0
           \<or> sint (m_finalSequenceNumber s) \<le> sint (rr_sequenceNumber result)"
  shows "\<exists>s'. ReceiveCompletion interface result s = Inr s'
           \<and> m_latencyData s' = m_latencyData s
           \<and> m_primaryCorruptFrames s'
               = (if interface = Primary then m_primaryCorruptFrames s + 1 else m_primaryCorruptFrames s)
           \<and> m_secondaryCorruptFrames s'
               = (if interface = Secondary then m_secondaryCorruptFrames s + 1
                  else m_secondaryCorruptFrames s)"
  using assms by (cases interface) (auto simp: ReceiveCompletion_def)

theorem ReceiveCompletion_out_of_range_witness:
  "sint (m_finalSequenceNumber (projr scenario)) \<le> sint (2440 :: llong)
   \<and> (\<exists>s'. ReceiveCompletion Secondary
              \<lparr>rr_sequenceNumber = 2440, rr_sendTimestamp = 1, rr_echoTimestamp = 2,
               rr_receiveTimestamp = 3\<rparr> (projr scenario) = Inr s'
          \<and> m_latencyData s' = m_latencyData (projr scenario)
          \<and> m_primaryCorruptFrames s' = 0 \<and> m_secondaryCorruptFrames s' = 1)"
proof -
  have f: "m_finalSequenceNumber (projr scenario) = 2440"
    and c: "m_primaryCorruptFrames (projr scenario) = 0" "m_secondaryCorruptFrames (projr scenario) = 0"
    by (simp_all add: scenario_defs)
  have h: "sint (rr_sequenceNumber \<lparr>rr_sequenceNumber = 2440, rr_sendTimestamp = 1, rr_echoTimestamp = 2,
               rr_receiveTimestamp = 3\<rparr>) < 0
           \<or> sint (m_finalSequenceNumber (projr scenario)) \<le> sint (rr_sequenceNumber \<lparr>rr_sequenceNumber = 2440, rr_sendTimestamp = 1, rr_echoTimestamp = 2,
               rr_receiveTimestamp = 3\<rparr>)"
    by (simp add: f)
  show ?thesis
    using ReceiveCompletion_out_of_range [OF h, of Secondary] by (simp add: f c)
qed

section \<open>Short frames\<close>

lemma ValidateBufferLength_iff: "ValidateBufferLength n \<longleftrightarrow> \<not> n < 24"
  by (simp add: ValidateBufferLength_def c_datagramHeaderLength_def
      c_datagramSequenceNumberLength_def c_datagramTimestampLength_def)

text \<open>
  C5. \<open>ValidateBufferLength\<close> returns false exactly for a byte count below 24, the header
  length. A receive of fewer than 24 bytes (23, say) therefore returns without a fault, whatever
  the buffer holds where a header would be, leaves every aggregator record as it was and adds
  one to the corrupt-frame counter of its path.
\<close>

theorem short_frame_rejected:
  "(ValidateBufferLength n \<longleftrightarrow> \<not> n < 24)
   \<and> unat c_datagramHeaderLength = 24
   \<and> (n < 24 \<longrightarrow>
        (\<exists>s'. OnReceive interface n header receiveTimestamp s = Inr s'
           \<and> OnReceive interface n header' receiveTimestamp' s = Inr s'
           \<and> m_latencyData s' = m_latencyData s
           \<and> m_corruptFrames (m_primaryState s')
               = (if interface = Primary then m_corruptFrames (m_primaryState s) + 1
                  else m_corruptFrames (m_primaryState s))
           \<and> m_corruptFrames (m_secondaryState s')
               = (if interface = Secondary then m_corruptFrames (m_secondaryState s) + 1
                  else m_corruptFrames (m_secondaryState s))))"
  by (cases interface) (auto simp: ValidateBufferLength_iff OnReceive_def countCorruptFrame_def c_datagramHeaderLength_def
      c_datagramSequenceNumberLength_def c_datagramTimestampLength_def)


theorem short_frame_rejected_witness:
  "(23 :: size_t) < 24
   \<and> (\<exists>s'. OnReceive Primary 23
               \<lparr>hdr_sequenceNumber = 0, hdr_sendTimestamp = 100, hdr_echoTimestamp = 200\<rparr> 300
               oneRecord = Inr s'
          \<and> m_latencyData s' = m_latencyData oneRecord
          \<and> m_corruptFrames (m_primaryState s') = 1
          \<and> m_corruptFrames (m_secondaryState s') = 0)"
proof -
  have c: "m_corruptFrames (m_primaryState oneRecord) = 0"
      "m_corruptFrames (m_secondaryState oneRecord) = 0"
    by (simp_all add: oneRecord_def StreamClient_new_def MeasuredSocket_new_def)
  show ?thesis
    using short_frame_rejected [of 23 Primary
        "\<lparr>hdr_sequenceNumber = 0, hdr_sendTimestamp = 100, hdr_echoTimestamp = 200\<rparr>" 300 oneRecord]
    by (auto simp: c)
qed

section \<open>Stop, twice\<close>

text \<open>
  C6, as amended. A second \<open>Stop\<close> right after a first leaves the running flag, the timer,
  the subscription, both paths and the aggregator as the first \<open>Stop\<close> left them, but it is
  not without effect: it waits the grace period of one second again and sets the completion
  event once more.
\<close>

theorem Stop_twice:
  "Stop (Stop s)
     = (Stop s)\<lparr>fx_sleptMs := fx_sleptMs (Stop s) + 1000,
                fx_completeEvent := fx_completeEvent (Stop s) + 1\<rparr>"
  by (simp add: Stop_def Cancel_def Let_def)

text \<open>
  The claim as stated excludes a second signal: after the scenario of the spec the first
  \<open>Stop\<close> has set the completion event once, the second \<open>Stop\<close> twice.
\<close>

theorem Stop_twice_counterexample:
  "fx_completeEvent (Stop (projr scenario)) = 1
   \<and> fx_completeEvent (Stop (Stop (projr scenario))) = 2
   \<and> Stop (Stop (projr scenario)) \<noteq> Stop (projr scenario)"
  by (simp add: scenario_defs Stop_def Cancel_def)

section \<open>Bringing the secondary interface up\<close>

lemma HRESULT_FROM_WIN32_ERROR_NOT_CONNECTED: "HRESULT_FROM_WIN32 ERROR_NOT_CONNECTED = 0x800708CA"
  by (simp add: HRESULT_FROM_WIN32_def ERROR_NOT_CONNECTED_def FACILITY_WIN32_def)

lemma Cancel_Setup: "Cancel (Setup p) = Cancel p"
  by (simp add: Cancel_def Setup_def)

text \<open>
  C9, as amended. For a secondary path that is \<open>Connecting\<close> and whose interface the
  platform reports connected: when every call of the block succeeds the path becomes
  \<open>Ready\<close>; when the first call that fails, whichever of the four it is, throws the result
  exception of \<open>ERROR_NOT_CONNECTED\<close>, the path is cancelled and left \<open>Connecting\<close>, and a
  later notification on which the calls succeed makes it \<open>Ready\<close>; when the first call that
  fails throws anything else, the process fails fast.
\<close>

theorem connectSecondary_outcomes:
  assumes st: "m_adapterStatus (m_secondaryState s) = Connecting"
    and up: "IsAdapterConnected env (cb_secondaryInterfaceGuid s)"
  shows "(env_ConvertInterfaceGuidToIndex env = None \<and> env_Setup env = None
            \<and> env_CheckConnectivity env = None \<and> env_PrepareToReceive env = None
          \<longrightarrow> connectSecondary env s
                = Inr (s\<lparr>m_secondaryState :=
                         (PrepareToReceive (Setup (m_secondaryState s)))\<lparr>m_adapterStatus := Ready\<rparr>\<rparr>))
         \<and> (\<forall>x. (env_ConvertInterfaceGuidToIndex env = Some x
                  \<or> env_ConvertInterfaceGuidToIndex env = None \<and> env_Setup env = Some x
                  \<or> env_ConvertInterfaceGuidToIndex env = None \<and> env_Setup env = None
                      \<and> env_CheckConnectivity env = Some x
                  \<or> env_ConvertInterfaceGuidToIndex env = None \<and> env_Setup env = None
                      \<and> env_CheckConnectivity env = None \<and> env_PrepareToReceive env = Some x)
               \<longrightarrow> connectSecondary env s
                     = (if x = ResultException (HRESULT_FROM_WIN32 ERROR_NOT_CONNECTED)
                        then Inr (s\<lparr>m_secondaryState :=
                                    (Cancel (m_secondaryState s))\<lparr>m_adapterStatus := Connecting\<rparr>\<rparr>)
                        else Inl FailFast))
         \<and> (\<forall>env' :: NetEnv. IsAdapterConnected env' (cb_secondaryInterfaceGuid s)
                  \<and> env_ConvertInterfaceGuidToIndex env' = None \<and> env_Setup env' = None
                  \<and> env_CheckConnectivity env' = None \<and> env_PrepareToReceive env' = None
               \<longrightarrow> (\<exists>s'. connectSecondary env'
                            (s\<lparr>m_secondaryState :=
                                 (Cancel (m_secondaryState s))\<lparr>m_adapterStatus := Connecting\<rparr>\<rparr>) = Inr s'
                        \<and> m_adapterStatus (m_secondaryState s') = Ready))"
proof (intro conjI impI allI)
  assume "env_ConvertInterfaceGuidToIndex env = None \<and> env_Setup env = None
            \<and> env_CheckConnectivity env = None \<and> env_PrepareToReceive env = None"
  then show "connectSecondary env s
                = Inr (s\<lparr>m_secondaryState :=
                         (PrepareToReceive (Setup (m_secondaryState s)))\<lparr>m_adapterStatus := Ready\<rparr>\<rparr>)"
    using st up by (simp add: connectSecondary_def secondaryTry_def Let_def)
next
  fix x
  assume a: "env_ConvertInterfaceGuidToIndex env = Some x
                  \<or> env_ConvertInterfaceGuidToIndex env = None \<and> env_Setup env = Some x
                  \<or> env_ConvertInterfaceGuidToIndex env = None \<and> env_Setup env = None
                      \<and> env_CheckConnectivity env = Some x
                  \<or> env_ConvertInterfaceGuidToIndex env = None \<and> env_Setup env = None
                      \<and> env_CheckConnectivity env = None \<and> env_PrepareToReceive env = Some x"
  then have "secondaryTry env (m_secondaryState s) = Inl (x, m_secondaryState s)
             \<or> secondaryTry env (m_secondaryState s) = Inl (x, Setup (m_secondaryState s))"
    by (auto simp: secondaryTry_def Let_def)
  then show "connectSecondary env s
                     = (if x = ResultException (HRESULT_FROM_WIN32 ERROR_NOT_CONNECTED)
                        then Inr (s\<lparr>m_secondaryState :=
                                    (Cancel (m_secondaryState s))\<lparr>m_adapterStatus := Connecting\<rparr>\<rparr>)
                        else Inl FailFast)"
    using st up by (cases x) (auto simp: connectSecondary_def Cancel_Setup)
next
  fix env' :: NetEnv
  assume "IsAdapterConnected env' (cb_secondaryInterfaceGuid s)
                  \<and> env_ConvertInterfaceGuidToIndex env' = None \<and> env_Setup env' = None
                  \<and> env_CheckConnectivity env' = None \<and> env_PrepareToReceive env' = None"
  then show "\<exists>s'. connectSecondary env'
                            (s\<lparr>m_secondaryState :=
                                 (Cancel (m_secondaryState s))\<lparr>m_adapterStatus := Connecting\<rparr>\<rparr>) = Inr s'
                        \<and> m_adapterStatus (m_secondaryState s') = Ready"
    by (simp add: connectSecondary_def secondaryTry_def Let_def)
qed

lemmas connect_defs = connecting_def connectedNet_def notConnected_def StreamClient_new_def
  MeasuredSocket_new_def Setup_def PrepareToReceive_def Cancel_def

theorem connectSecondary_outcomes_witness:
  "m_adapterStatus (m_secondaryState connecting) = Connecting
   \<and> IsAdapterConnected (connectedNet None None None None) (cb_secondaryInterfaceGuid connecting)
   \<and> m_adapterStatus (m_secondaryState
         (projr (connectSecondary (connectedNet None None None None) connecting))) = Ready
   \<and> \<not> isl (connectSecondary (connectedNet None None None None) connecting)
   \<and> connectSecondary (connectedNet None None (Some notConnected) None) connecting
       = Inr connecting
   \<and> connectSecondary (connectedNet None (Some notConnected) None None) connecting
       = Inr connecting
   \<and> connectSecondary (connectedNet None None None (Some notConnected)) connecting
       = Inr connecting
   \<and> connectSecondary (connectedNet None None (Some OtherException) None) connecting = Inl FailFast
   \<and> connectSecondary (connectedNet None (Some OtherException) None None) connecting = Inl FailFast
   \<and> connectSecondary (connectedNet (Some LengthError) None None None) connecting = Inl FailFast
   \<and> connectSecondary (connectedNet None None None (Some (ResultException 0x80004005))) connecting
       = Inl FailFast"
proof -
  have st: "m_adapterStatus (m_secondaryState connecting) = Connecting"
    by (simp add: connect_defs)
  have up: "IsAdapterConnected (connectedNet c u k p) (cb_secondaryInterfaceGuid connecting)"
    for c u k p
    by (simp add: connect_defs)
  have same: "connecting\<lparr>m_secondaryState :=
                 (Cancel (m_secondaryState connecting))\<lparr>m_adapterStatus := Connecting\<rparr>\<rparr> = connecting"
    by (simp add: connect_defs)
  have ne: "ResultException 0x80004005 \<noteq> ResultException (HRESULT_FROM_WIN32 ERROR_NOT_CONNECTED)"
    by (simp add: HRESULT_FROM_WIN32_def ERROR_NOT_CONNECTED_def FACILITY_WIN32_def)
  note t = connectSecondary_outcomes [OF st up]
  have a: "connectSecondary (connectedNet None None None None) connecting
             = Inr (connecting\<lparr>m_secondaryState :=
                      (PrepareToReceive (Setup (m_secondaryState connecting)))
                        \<lparr>m_adapterStatus := Ready\<rparr>\<rparr>)"
    using t [of None None None None] by (simp add: connectedNet_def)
  have b: "connectSecondary (connectedNet None None (Some notConnected) None) connecting
             = Inr connecting"
    using t [of None None "Some notConnected" None]
    by (simp add: connectedNet_def notConnected_def same)
  have c: "connectSecondary (connectedNet None (Some notConnected) None None) connecting
             = Inr connecting"
    using t [of None "Some notConnected" None None]
    by (simp add: connectedNet_def notConnected_def same)
  have d: "connectSecondary (connectedNet None None None (Some notConnected)) connecting
             = Inr connecting"
    using t [of None None None "Some notConnected"]
    by (simp add: connectedNet_def notConnected_def same)
  have e: "connectSecondary (connectedNet None None (Some OtherException) None) connecting
             = Inl FailFast"
    using t [of None None "Some OtherException" None] by (simp add: connectedNet_def)
  have f: "connectSecondary (connectedNet None (Some OtherException) None None) connecting
             = Inl FailFast"
    using t [of None "Some OtherException" None None] by (simp add: connectedNet_def)
  have g: "connectSecondary (connectedNet (Some LengthError) None None None) connecting
             = Inl FailFast"
    using t [of "Some LengthError" None None None] by (simp add: connectedNet_def)
  have h: "connectSecondary (connectedNet None None None (Some (ResultException 0x80004005)))
             connecting = Inl FailFast"
    using t [of None None None "Some (ResultException 0x80004005)"] ne
    by (simp add: connectedNet_def)
  from st up [of None None None None] a b c d e f g h show ?thesis by simp
qed

text \<open>
  The claim as stated retries a failure of \<open>CheckConnectivity\<close> only and aborts on any other
  failure of the sequence. Here \<open>Setup\<close> throws the result exception of
  \<open>ERROR_NOT_CONNECTED\<close>: the process does not fail fast, the path stays \<open>Connecting\<close>.
\<close>

theorem connectSecondary_counterexample:
  "connectSecondary (connectedNet None (Some notConnected) None None) connecting = Inr connecting
   \<and> connectSecondary (connectedNet None (Some notConnected) None None) connecting \<noteq> Inl FailFast
   \<and> env_Setup (connectedNet None (Some notConnected) None None)
       = Some (ResultException (HRESULT_FROM_WIN32 ERROR_NOT_CONNECTED))
   \<and> env_CheckConnectivity (connectedNet None (Some notConnected) None None) = None
   \<and> m_adapterStatus (m_secondaryState connecting) = Connecting"
  by (simp add: connect_defs connectSecondary_def secondaryTry_def)


section \<open>The send scheduler\<close>

lemma SendDatagrams_fields:
  "m_frameRate (SendDatagrams s) = m_frameRate s"
  "m_finalSequenceNumber (SendDatagrams s) = m_finalSequenceNumber s"
  "m_running (SendDatagrams s) = m_running s"
  "m_threadpoolTimer (SendDatagrams s) = m_threadpoolTimer s"
  "m_tickInterval (SendDatagrams s) = m_tickInterval s"
  "fx_completeEvent (SendDatagrams s) = fx_completeEvent s"
  "m_sequenceNumber (SendDatagrams s) = m_sequenceNumber s + 1"
  "primaryFrames (SendDatagrams s) = primaryFrames s + 1"
  by (simp_all add: SendDatagrams_def primaryFrames_def Let_def)

lemma SendN_fields:
  "m_frameRate ((SendDatagrams ^^ n) s) = m_frameRate s"
  "m_finalSequenceNumber ((SendDatagrams ^^ n) s) = m_finalSequenceNumber s"
  "m_running ((SendDatagrams ^^ n) s) = m_running s"
  "m_threadpoolTimer ((SendDatagrams ^^ n) s) = m_threadpoolTimer s"
  "m_tickInterval ((SendDatagrams ^^ n) s) = m_tickInterval s"
  "fx_completeEvent ((SendDatagrams ^^ n) s) = fx_completeEvent s"
  "m_sequenceNumber ((SendDatagrams ^^ n) s) = m_sequenceNumber s + of_nat n"
  "primaryFrames ((SendDatagrams ^^ n) s) = primaryFrames s + n"
  by (induction n) (simp_all add: SendDatagrams_fields)

lemma sint_add_of_nat:
  "sint (q :: 64 word) + int n \<le> sint (N :: 64 word) \<Longrightarrow> sint (q + of_nat n) = sint q + int n"
proof (induction n)
  case 0
  then show ?case by simp
next
  case (Suc n)
  then have ih: "sint (q + of_nat n) = sint q + int n" by simp
  then have "sint (q + of_nat n) < sint N" using Suc.prems by simp
  then have "sint ((q + of_nat n) + 1) = sint (q + of_nat n) + 1" by (rule sint_succ)
  then show ?case using ih by (simp add: ac_simps)
qed

lemma SendLoop_eq:
  assumes "n = nat (min (sint (m_frameRate s) - i)
                        (sint (m_finalSequenceNumber s) - sint (m_sequenceNumber s)))"
    and "i + int n \<le> 2147483647"
  shows "SendLoop i s = Inr ((SendDatagrams ^^ n) s)"
  using assms
proof (induction n arbitrary: i s)
  case 0
  then have nc: "\<not> (i < sint (m_frameRate s)
                  \<and> sint (m_sequenceNumber s) < sint (m_finalSequenceNumber s))"
    by auto
  show ?case by (simp only: SendLoop.simps [of i s] if_not_P [OF nc] funpow_0)
next
  case (Suc n)
  from Suc.prems(1) have c: "i < sint (m_frameRate s)"
      "sint (m_sequenceNumber s) < sint (m_finalSequenceNumber s)"
    by linarith+
  from Suc.prems(2) have ne: "i \<noteq> 2147483647" by simp
  have q: "sint (m_sequenceNumber (SendDatagrams s)) = sint (m_sequenceNumber s) + 1"
    using sint_succ [OF c(2)] by (simp add: SendDatagrams_fields)
  have n: "n = nat (min (sint (m_frameRate (SendDatagrams s)) - (i + 1))
                        (sint (m_finalSequenceNumber (SendDatagrams s))
                           - sint (m_sequenceNumber (SendDatagrams s))))"
    using Suc.prems(1) by (simp add: q SendDatagrams_fields(1,2))
  have b: "(i + 1) + int n \<le> 2147483647" using Suc.prems(2) by simp
  have "SendLoop i s = SendLoop (i + 1) (SendDatagrams s)"
    using c ne by (simp add: SendLoop.simps [of i s])
  also have "\<dots> = Inr ((SendDatagrams ^^ n) (SendDatagrams s))"
    by (rule Suc.IH [OF n b])
  also have "\<dots> = Inr ((SendDatagrams ^^ Suc n) s)"
    by (simp add: funpow_swap1)
  finally show ?case .
qed


lemma TimerCallback_tick:
  assumes run: "m_running s"
    and f1: "1 \<le> sint (m_frameRate s)"
    and qN: "sint (m_sequenceNumber s) \<le> sint (m_finalSequenceNumber s)"
    and ovf: "sint (m_frameRate s) \<le> 2147483647
              \<or> sint (m_finalSequenceNumber s) - sint (m_sequenceNumber s) \<le> 2147483647"
    and n: "n = nat (min (sint (m_frameRate s))
                         (sint (m_finalSequenceNumber s) - sint (m_sequenceNumber s)))"
  shows "TimerCallback s
           = Inr (if sint (m_sequenceNumber s) + sint (m_frameRate s) < sint (m_finalSequenceNumber s)
                  then ((SendDatagrams ^^ n) s)\<lparr>m_threadpoolTimer := Some (m_tickInterval s)\<rparr>
                  else Stop ((SendDatagrams ^^ n) s))"
    and "sint (m_sequenceNumber ((SendDatagrams ^^ n) s))
           = min (sint (m_sequenceNumber s) + sint (m_frameRate s)) (sint (m_finalSequenceNumber s))"
proof -
  let ?s1 = "(SendDatagrams ^^ n) s"
  have n': "n = nat (min (sint (m_frameRate s) - 0)
                         (sint (m_finalSequenceNumber s) - sint (m_sequenceNumber s)))"
    using n by simp
  have b: "0 + int n \<le> 2147483647" using n ovf f1 qN by auto
  have l: "SendLoop 0 s = Inr ?s1" by (rule SendLoop_eq [OF n' b])
  have le: "sint (m_sequenceNumber s) + int n \<le> sint (m_finalSequenceNumber s)"
    using n f1 qN by auto
  have q1: "sint (m_sequenceNumber ?s1) = sint (m_sequenceNumber s) + int n"
    using sint_add_of_nat [OF le] by (simp add: SendN_fields)
  show "sint (m_sequenceNumber ?s1)
           = min (sint (m_sequenceNumber s) + sint (m_frameRate s)) (sint (m_finalSequenceNumber s))"
    using q1 n f1 qN by auto
  show "TimerCallback s
           = Inr (if sint (m_sequenceNumber s) + sint (m_frameRate s) < sint (m_finalSequenceNumber s)
                  then ?s1\<lparr>m_threadpoolTimer := Some (m_tickInterval s)\<rparr>
                  else Stop ?s1)"
  proof (cases "sint (m_sequenceNumber s) + sint (m_frameRate s) < sint (m_finalSequenceNumber s)")
    case True
    then have "sint (m_sequenceNumber ?s1) < sint (m_finalSequenceNumber ?s1)"
      using q1 n f1 by (simp add: SendN_fields)
    then show ?thesis
      using run l True by (simp add: TimerCallback_def SendN_fields)
  next
    case False
    then have "sint (m_sequenceNumber ?s1) = sint (m_finalSequenceNumber ?s1)"
      using q1 n f1 qN by (simp add: SendN_fields)
    then show ?thesis
      using run l False by (simp add: TimerCallback_def)
  qed
qed


lemma Stop_fields:
  "\<not> m_running (Stop s)"
  "m_threadpoolTimer (Stop s) = None"
  "fx_completeEvent (Stop s) = fx_completeEvent s + 1"
  "m_sequenceNumber (Stop s) = m_sequenceNumber s"
  "m_frameRate (Stop s) = m_frameRate s"
  "primaryFrames (Stop s) = primaryFrames s"
  by (simp_all add: Stop_def primaryFrames_def Let_def)

lemma primaryFrames_timer:
  "primaryFrames (s\<lparr>m_threadpoolTimer := t\<rparr>) = primaryFrames s"
  by (simp add: primaryFrames_def)

lemma TimerFired_continue:
  assumes run: "m_running s" and armed: "m_threadpoolTimer s \<noteq> None"
    and f1: "1 \<le> sint (m_frameRate s)"
    and lt: "sint (m_sequenceNumber s) + sint (m_frameRate s) < sint (m_finalSequenceNumber s)"
    and ovf: "sint (m_frameRate s) \<le> 2147483647
              \<or> sint (m_finalSequenceNumber s) - sint (m_sequenceNumber s) \<le> 2147483647"
  shows "\<exists>s1. TimerFired s = Inr s1 \<and> m_running s1 \<and> m_threadpoolTimer s1 \<noteq> None
           \<and> sint (m_sequenceNumber s1) = sint (m_sequenceNumber s) + sint (m_frameRate s)
           \<and> m_frameRate s1 = m_frameRate s
           \<and> m_finalSequenceNumber s1 = m_finalSequenceNumber s
           \<and> fx_completeEvent s1 = fx_completeEvent s
           \<and> int (primaryFrames s1) = int (primaryFrames s) + sint (m_frameRate s)"
proof -
  let ?s0 = "s\<lparr>m_threadpoolTimer := None\<rparr>"
  define n where "n = nat (min (sint (m_frameRate ?s0))
                         (sint (m_finalSequenceNumber ?s0) - sint (m_sequenceNumber ?s0)))"
  have nf: "int n = sint (m_frameRate s)" using n_def f1 lt by simp
  have t: "TimerFired s = TimerCallback ?s0"
    using armed by (auto simp: TimerFired_def)
  have r0: "m_running ?s0" using run by simp
  have f0: "1 \<le> sint (m_frameRate ?s0)" using f1 by simp
  have q0: "sint (m_sequenceNumber ?s0) \<le> sint (m_finalSequenceNumber ?s0)" using lt f1 by simp
  have o0: "sint (m_frameRate ?s0) \<le> 2147483647
              \<or> sint (m_finalSequenceNumber ?s0) - sint (m_sequenceNumber ?s0) \<le> 2147483647"
    using ovf by simp
  note tc = TimerCallback_tick [OF r0 f0 q0 o0 n_def]
  let ?s1 = "((SendDatagrams ^^ n) ?s0)\<lparr>m_threadpoolTimer := Some (m_tickInterval ?s0)\<rparr>"
  have "TimerFired s = Inr ?s1" using t tc(1) lt by simp
  moreover have "sint (m_sequenceNumber ?s1) = sint (m_sequenceNumber s) + sint (m_frameRate s)"
    using tc(2) lt by simp
  moreover have "int (primaryFrames ?s1) = int (primaryFrames s) + sint (m_frameRate s)"
    using nf by (simp add: primaryFrames_timer SendN_fields(8))
  ultimately show ?thesis using run by (simp add: SendN_fields)
qed

lemma TimerFired_last:
  assumes run: "m_running s" and armed: "m_threadpoolTimer s \<noteq> None"
    and f1: "1 \<le> sint (m_frameRate s)"
    and qN: "sint (m_sequenceNumber s) \<le> sint (m_finalSequenceNumber s)"
    and ge: "sint (m_finalSequenceNumber s) \<le> sint (m_sequenceNumber s) + sint (m_frameRate s)"
    and ovf: "sint (m_frameRate s) \<le> 2147483647
              \<or> sint (m_finalSequenceNumber s) - sint (m_sequenceNumber s) \<le> 2147483647"
  shows "\<exists>s1. TimerFired s = Inr s1 \<and> \<not> m_running s1 \<and> m_threadpoolTimer s1 = None
           \<and> m_sequenceNumber s1 = m_finalSequenceNumber s
           \<and> fx_completeEvent s1 = fx_completeEvent s + 1
           \<and> int (primaryFrames s1) = int (primaryFrames s)
                + (sint (m_finalSequenceNumber s) - sint (m_sequenceNumber s))"
proof -
  let ?s0 = "s\<lparr>m_threadpoolTimer := None\<rparr>"
  define n where "n = nat (min (sint (m_frameRate ?s0))
                         (sint (m_finalSequenceNumber ?s0) - sint (m_sequenceNumber ?s0)))"
  have nf: "int n = sint (m_finalSequenceNumber s) - sint (m_sequenceNumber s)"
    using n_def f1 qN ge by simp
  have t: "TimerFired s = TimerCallback ?s0"
    using armed by (auto simp: TimerFired_def)
  have r0: "m_running ?s0" using run by simp
  have f0: "1 \<le> sint (m_frameRate ?s0)" using f1 by simp
  have q0: "sint (m_sequenceNumber ?s0) \<le> sint (m_finalSequenceNumber ?s0)" using qN by simp
  have o0: "sint (m_frameRate ?s0) \<le> 2147483647
              \<or> sint (m_finalSequenceNumber ?s0) - sint (m_sequenceNumber ?s0) \<le> 2147483647"
    using ovf by simp
  note tc = TimerCallback_tick [OF r0 f0 q0 o0 n_def]
  let ?s1 = "Stop ((SendDatagrams ^^ n) ?s0)"
  have "TimerFired s = Inr ?s1" using t tc(1) ge by simp
  moreover have "sint (m_sequenceNumber ?s1) = sint (m_finalSequenceNumber s)"
    using tc(2) ge by (simp add: Stop_fields)
  then have "m_sequenceNumber ?s1 = m_finalSequenceNumber s"
    by (rule signed_word_eqI)
  moreover have "int (primaryFrames ?s1) = int (primaryFrames s)
                + (sint (m_finalSequenceNumber s) - sint (m_sequenceNumber s))"
    using nf by (simp add: Stop_fields(6) primaryFrames_timer SendN_fields(8))
  ultimately show ?thesis by (simp add: Stop_fields SendN_fields)
qed


lemma ticks_Suc_right:
  "ticks (Suc j) s = (case ticks j s of Inl e \<Rightarrow> Inl e | Inr s' \<Rightarrow> TimerFired s')"
proof (induction j arbitrary: s)
  case 0
  show ?case by (cases "TimerFired s") simp_all
next
  case (Suc j)
  show ?case
  proof (cases "TimerFired s")
    case (Inl e)
    then show ?thesis by simp
  next
    case (Inr s1)
    have a: "ticks (Suc j) s = ticks j s1" using Inr by simp
    have b: "ticks (Suc (Suc j)) s = ticks (Suc j) s1" using Inr by simp
    show ?thesis by (simp only: b a Suc.IH [of s1])
  qed
qed

lemma ticks_continue:
  assumes "m_running s" and "m_threadpoolTimer s \<noteq> None"
    and "1 \<le> sint (m_frameRate s)"
    and "j = 0 \<or> sint (m_sequenceNumber s) + int j * sint (m_frameRate s)
                    < sint (m_finalSequenceNumber s)"
    and "sint (m_frameRate s) \<le> 2147483647
         \<or> sint (m_finalSequenceNumber s) - sint (m_sequenceNumber s) \<le> 2147483647"
  shows "\<exists>sj. ticks j s = Inr sj \<and> m_running sj \<and> m_threadpoolTimer sj \<noteq> None
           \<and> sint (m_sequenceNumber sj) = sint (m_sequenceNumber s) + int j * sint (m_frameRate s)
           \<and> m_frameRate sj = m_frameRate s
           \<and> m_finalSequenceNumber sj = m_finalSequenceNumber s
           \<and> fx_completeEvent sj = fx_completeEvent s
           \<and> int (primaryFrames sj) = int (primaryFrames s) + int j * sint (m_frameRate s)"
  using assms
proof (induction j arbitrary: s)
  case 0
  then show ?case by simp
next
  case (Suc j)
  let ?f = "sint (m_frameRate s)"
  have jf: "0 \<le> int j * ?f" using Suc.prems(3) by simp
  have lt: "sint (m_sequenceNumber s) + ?f < sint (m_finalSequenceNumber s)"
    using Suc.prems(4) jf by (simp add: algebra_simps)
  from TimerFired_continue [OF Suc.prems(1,2,3) lt Suc.prems(5)]
  obtain s1 where t: "TimerFired s = Inr s1" and r1: "m_running s1"
    and a1: "m_threadpoolTimer s1 \<noteq> None"
    and q1: "sint (m_sequenceNumber s1) = sint (m_sequenceNumber s) + ?f"
    and f1: "m_frameRate s1 = m_frameRate s"
    and N1: "m_finalSequenceNumber s1 = m_finalSequenceNumber s"
    and e1: "fx_completeEvent s1 = fx_completeEvent s"
    and p1: "int (primaryFrames s1) = int (primaryFrames s) + ?f"
    by blast
  have h3: "1 \<le> sint (m_frameRate s1)" using Suc.prems(3) f1 by simp
  have h4: "j = 0 \<or> sint (m_sequenceNumber s1) + int j * sint (m_frameRate s1)
                    < sint (m_finalSequenceNumber s1)"
    using Suc.prems(4) by (simp add: q1 f1 N1 algebra_simps)
  have h5: "sint (m_frameRate s1) \<le> 2147483647
         \<or> sint (m_finalSequenceNumber s1) - sint (m_sequenceNumber s1) \<le> 2147483647"
    using Suc.prems(5) Suc.prems(3) by (auto simp: q1 f1 N1)
  from Suc.IH [OF r1 a1 h3 h4 h5]
  obtain sj where "ticks j s1 = Inr sj" "m_running sj" "m_threadpoolTimer sj \<noteq> None"
    "sint (m_sequenceNumber sj) = sint (m_sequenceNumber s1) + int j * sint (m_frameRate s1)"
    "m_frameRate sj = m_frameRate s1" "m_finalSequenceNumber sj = m_finalSequenceNumber s1"
    "fx_completeEvent sj = fx_completeEvent s1"
    "int (primaryFrames sj) = int (primaryFrames s1) + int j * sint (m_frameRate s1)"
    by blast
  then show ?case using t by (simp add: q1 f1 N1 e1 p1 algebra_simps)
qed


lemma ceil_bounds:
  assumes "1 \<le> (N::int)" "1 \<le> (f::int)"
  defines "c \<equiv> (N + f - 1) div f"
  shows "1 \<le> c" and "(c - 1) * f < N" and "N \<le> c * f"
proof -
  define r where "r = (N + f - 1) mod f"
  have e: "N + f - 1 = c * f + r" by (simp add: c_def r_def)
  have r: "0 \<le> r" "r < f" using assms(2) by (simp_all add: r_def)
  have d: "(c - 1) * f = c * f - f" by (simp add: algebra_simps)
  show "N \<le> c * f" using e r by linarith
  show "(c - 1) * f < N" using e r d by linarith
  have "0 < c * f" using \<open>N \<le> c * f\<close> assms(1) by linarith
  then have "0 < c" using assms(2) by (simp add: zero_less_mult_iff)
  then show "1 \<le> c" by simp
qed

text \<open>
  C7, as amended. Let the timer be armed and the client running, with the sequence counter at 0,
  a final sequence number \<open>N\<close> that is not negative and at least one frame per tick \<open>f\<close>
  (one of the two below \<open>2^31\<close>, so that the loop counter does not overflow), and let the
  timer fire with nothing in between. Then after exactly \<open>max 1 (ceil (N / f))\<close> callbacks
  the timer is no longer armed, \<open>Stop\<close> has run and set the completion event once, the
  sequence counter equals \<open>N\<close> and \<open>N\<close> datagrams went to the primary path; after any
  smaller number of callbacks the client is still running with the timer armed, and the
  completion event untouched. \<open>SendDatagrams\<close> advances the counter by one, whether the
  sequence number went to one path or to both.
\<close>

theorem scheduler_terminates:
  assumes run: "m_running s" and armed: "m_threadpoolTimer s \<noteq> None"
    and q0: "m_sequenceNumber s = 0"
    and N0: "0 \<le> sint (m_finalSequenceNumber s)"
    and f1: "1 \<le> sint (m_frameRate s)"
    and ovf: "sint (m_frameRate s) \<le> 2147483647 \<or> sint (m_finalSequenceNumber s) \<le> 2147483647"
    and K: "K = max 1 (nat ((sint (m_finalSequenceNumber s) + sint (m_frameRate s) - 1)
                              div sint (m_frameRate s)))"
  shows "(\<exists>s'. ticks K s = Inr s' \<and> \<not> m_running s' \<and> m_threadpoolTimer s' = None
            \<and> fx_completeEvent s' = fx_completeEvent s + 1
            \<and> m_sequenceNumber s' = m_finalSequenceNumber s
            \<and> int (primaryFrames s') = int (primaryFrames s) + sint (m_finalSequenceNumber s))
         \<and> (\<forall>j<K. \<exists>sj. ticks j s = Inr sj \<and> m_running sj \<and> m_threadpoolTimer sj \<noteq> None
                    \<and> fx_completeEvent sj = fx_completeEvent s)
         \<and> (\<forall>t. m_sequenceNumber (SendDatagrams t) = m_sequenceNumber t + 1
                \<and> fx_sent (SendDatagrams t)
                    = fx_sent t @ (Primary, m_sequenceNumber t)
                        # (if m_adapterStatus (m_secondaryState t) = Ready
                           then [(Secondary, m_sequenceNumber t)] else []))"
proof -
  let ?N = "sint (m_finalSequenceNumber s)"
  let ?f = "sint (m_frameRate s)"
  have sq: "sint (m_sequenceNumber s) = 0" using q0 by simp
  have o: "?f \<le> 2147483647 \<or> ?N - sint (m_sequenceNumber s) \<le> 2147483647"
    using ovf sq by simp
  have before: "j = 0 \<or> sint (m_sequenceNumber s) + int j * ?f < ?N" if "j < K" for j
  proof (cases "?N = 0")
    case True
    then have "K = 1" using K f1 by simp
    then show ?thesis using that by simp
  next
    case False
    then have N1: "1 \<le> ?N" using N0 by simp
    note cb = ceil_bounds [OF N1 f1]
    have Kc: "int K = (?N + ?f - 1) div ?f" using K cb(1) by simp
    have "int j \<le> int K - 1" using that by simp
    then have "int j * ?f \<le> (int K - 1) * ?f" using f1 by (simp add: mult_right_mono)
    then have "int j * ?f < ?N" using cb(2) Kc by simp
    then show ?thesis using sq by simp
  qed
  have K1: "1 \<le> K" using K by simp
  then obtain k where k: "K = Suc k" by (cases K) simp_all
  from ticks_continue [OF run armed f1 before [of k] o] k
  obtain sk where tk: "ticks k s = Inr sk" and rk: "m_running sk"
    and ak: "m_threadpoolTimer sk \<noteq> None"
    and qk: "sint (m_sequenceNumber sk) = sint (m_sequenceNumber s) + int k * ?f"
    and fk: "m_frameRate sk = m_frameRate s"
    and Nk: "m_finalSequenceNumber sk = m_finalSequenceNumber s"
    and ek: "fx_completeEvent sk = fx_completeEvent s"
    and pk: "int (primaryFrames sk) = int (primaryFrames s) + int k * ?f"
    by auto
  have le: "sint (m_sequenceNumber sk) \<le> sint (m_finalSequenceNumber sk)"
    using before [of k] k N0 by (auto simp: qk Nk sq)
  have ge: "sint (m_finalSequenceNumber sk) \<le> sint (m_sequenceNumber sk) + sint (m_frameRate sk)"
  proof (cases "?N = 0")
    case True
    then have "K = 1" using K f1 by simp
    then have "k = 0" using k by simp
    then show ?thesis using True f1 by (simp add: qk Nk fk sq)
  next
    case False
    then have N1: "1 \<le> ?N" using N0 by simp
    note cb = ceil_bounds [OF N1 f1]
    have Kc: "int K = (?N + ?f - 1) div ?f" using K cb(1) by simp
    have "?N \<le> int K * ?f" using cb(3) Kc by simp
    also have "\<dots> = int k * ?f + ?f" using k by (simp add: algebra_simps)
    finally show ?thesis by (simp add: qk Nk fk sq)
  qed
  have fk1: "1 \<le> sint (m_frameRate sk)" using f1 fk by simp
  have ok: "sint (m_frameRate sk) \<le> 2147483647
              \<or> sint (m_finalSequenceNumber sk) - sint (m_sequenceNumber sk) \<le> 2147483647"
  proof -
    have "0 \<le> int k * ?f" using f1 by simp
    then show ?thesis using ovf by (auto simp: qk Nk fk sq)
  qed
  from TimerFired_last [OF rk ak fk1 le ge ok]
  obtain s' where t': "TimerFired sk = Inr s'" and r': "\<not> m_running s'"
    and a': "m_threadpoolTimer s' = None"
    and q': "m_sequenceNumber s' = m_finalSequenceNumber sk"
    and e': "fx_completeEvent s' = fx_completeEvent sk + 1"
    and p': "int (primaryFrames s') = int (primaryFrames sk)
                + (sint (m_finalSequenceNumber sk) - sint (m_sequenceNumber sk))"
    by blast
  have "ticks K s = Inr s'" using tk t' k by (simp add: ticks_Suc_right del: ticks.simps)
  moreover have "int (primaryFrames s') = int (primaryFrames s) + ?N"
    using p' pk by (simp add: qk Nk sq)
  ultimately have first: "\<exists>s'. ticks K s = Inr s' \<and> \<not> m_running s' \<and> m_threadpoolTimer s' = None
            \<and> fx_completeEvent s' = fx_completeEvent s + 1
            \<and> m_sequenceNumber s' = m_finalSequenceNumber s
            \<and> int (primaryFrames s') = int (primaryFrames s) + ?N"
    using r' a' q' e' by (simp add: Nk ek)
  have second: "\<forall>j<K. \<exists>sj. ticks j s = Inr sj \<and> m_running sj \<and> m_threadpoolTimer sj \<noteq> None
                    \<and> fx_completeEvent sj = fx_completeEvent s"
  proof (intro allI impI)
    fix j assume "j < K"
    from ticks_continue [OF run armed f1 before [OF this] o]
    show "\<exists>sj. ticks j s = Inr sj \<and> m_running sj \<and> m_threadpoolTimer sj \<noteq> None
                    \<and> fx_completeEvent sj = fx_completeEvent s"
      by blast
  qed
  have third: "\<forall>t. m_sequenceNumber (SendDatagrams t) = m_sequenceNumber t + 1
                \<and> fx_sent (SendDatagrams t)
                    = fx_sent t @ (Primary, m_sequenceNumber t)
                        # (if m_adapterStatus (m_secondaryState t) = Ready
                           then [(Secondary, m_sequenceNumber t)] else [])"
    by (simp add: SendDatagrams_def Let_def)
  from first second third show ?thesis by blast
qed


theorem scheduler_terminates_witness:
  "m_running (projr scenario) \<and> m_threadpoolTimer (projr scenario) \<noteq> None
   \<and> m_sequenceNumber (projr scenario) = 0
   \<and> sint (m_finalSequenceNumber (projr scenario)) = 2440
   \<and> sint (m_frameRate (projr scenario)) = 50
   \<and> (\<exists>s'. ticks 49 (projr scenario) = Inr s' \<and> \<not> m_running s' \<and> m_threadpoolTimer s' = None
          \<and> fx_completeEvent s' = 1 \<and> m_sequenceNumber s' = 2440 \<and> primaryFrames s' = 2440)
   \<and> (\<exists>sj. ticks 48 (projr scenario) = Inr sj \<and> m_running sj \<and> m_threadpoolTimer sj \<noteq> None
          \<and> fx_completeEvent sj = 0)"
proof -
  have h1: "m_running (projr scenario)"
    and h2: "m_threadpoolTimer (projr scenario) \<noteq> None"
    and h3: "m_sequenceNumber (projr scenario) = 0"
    and N: "m_finalSequenceNumber (projr scenario) = 2440"
    and f: "m_frameRate (projr scenario) = 50"
    and e: "fx_completeEvent (projr scenario) = 0"
    and p: "primaryFrames (projr scenario) = 0"
    by (simp_all add: scenario_defs primaryFrames_def)
  have h4: "0 \<le> sint (m_finalSequenceNumber (projr scenario))" by (simp add: N)
  have h5: "1 \<le> sint (m_frameRate (projr scenario))" by (simp add: f)
  have h6: "sint (m_frameRate (projr scenario)) \<le> 2147483647
            \<or> sint (m_finalSequenceNumber (projr scenario)) \<le> 2147483647"
    by (simp add: f)
  have h7: "(49 :: nat) = max 1 (nat ((sint (m_finalSequenceNumber (projr scenario))
                + sint (m_frameRate (projr scenario)) - 1) div sint (m_frameRate (projr scenario))))"
    by (simp add: N f)
  note t = scheduler_terminates [OF h1 h2 h3 h4 h5 h6 h7]
  from t have a: "\<exists>s'. ticks 49 (projr scenario) = Inr s' \<and> \<not> m_running s'
          \<and> m_threadpoolTimer s' = None
          \<and> fx_completeEvent s' = 1 \<and> m_sequenceNumber s' = 2440 \<and> primaryFrames s' = 2440"
    by (simp add: N e p)
  from t have "\<forall>j<49. \<exists>sj. ticks j (projr scenario) = Inr sj \<and> m_running sj
          \<and> m_threadpoolTimer sj \<noteq> None \<and> fx_completeEvent sj = fx_completeEvent (projr scenario)"
    by blast
  then have b: "\<exists>sj. ticks 48 (projr scenario) = Inr sj \<and> m_running sj
          \<and> m_threadpoolTimer sj \<noteq> None \<and> fx_completeEvent sj = 0"
    using e by simp
  from h1 h2 h3 a b show ?thesis by (simp add: N f)
qed

text \<open>
  The claim as stated counts \<open>ceil (N / f)\<close> callbacks, which is no callback at all for
  \<open>N = 0\<close>. In the shortest run the final sequence number is 0 and the frame rate 1: before
  any callback the client is running, the timer armed and the completion event not set; it
  takes one callback to stop the run.
\<close>

lemmas shortest_defs = shortest_def Start_def StreamClient_new_def reachable_def quietNet_def
  CalculateTickInterval_def CalculateNumberOfDatagramToSend_def llong_div_def
  signed_divide_int_def c_bufferSize_def MAXSIZE_T_def vector_resize_def
  SetupSecondaryInterface_def Setup_def PrepareToReceive_def
  ConvertHundredNanosToRelativeFiletime_def MeasuredSocket_new_def Let_def

theorem scheduler_terminates_counterexample:
  "\<not> isl shortest
   \<and> m_finalSequenceNumber (projr shortest) = 0
   \<and> m_frameRate (projr shortest) = 1
   \<and> nat ((0 + 1 - 1) div (1 :: int)) = 0
   \<and> ticks 0 (projr shortest) = Inr (projr shortest)
   \<and> m_running (projr shortest)
   \<and> m_threadpoolTimer (projr shortest) \<noteq> None
   \<and> fx_completeEvent (projr shortest) = 0
   \<and> \<not> isl (ticks 1 (projr shortest))
   \<and> \<not> m_running (projr (ticks 1 (projr shortest)))
   \<and> m_threadpoolTimer (projr (ticks 1 (projr shortest))) = None
   \<and> fx_completeEvent (projr (ticks 1 (projr shortest))) = 1"
  by (simp add: shortest_defs TimerFired_def TimerCallback_def SendLoop.simps Stop_def Cancel_def)


section \<open>One datagram fewer than planned\<close>

text \<open>
  C1. \<open>Start\<close> with 2,000,000 bits per second, 50 frames per tick and 10 seconds plans
  (10 * 250000) / 1024 = 2441 datagrams and announces as many, and by the header the final
  sequence number is the number of the last datagram, the first being 0. On a client that was
  just constructed that number is 2440, and it is used as if it were the count: the aggregator
  array gets 2440 records, and the callbacks stop the run with the sequence counter at 2440,
  after 2440 datagrams. In the shortest run one datagram is planned and none is sent.
\<close>

theorem Start_sends_one_datagram_less:
  "\<not> isl scenario
   \<and> CalculateNumberOfDatagramToSend (ucast (10 :: ulong)) (ucast (2000000 :: ulong)) c_bufferSize
       = Inr 2441
   \<and> m_finalSequenceNumber (projr scenario) = 2440
   \<and> length (m_latencyData (projr scenario)) = 2440
   \<and> \<not> isl (ticks 49 (projr scenario))
   \<and> \<not> m_running (projr (ticks 49 (projr scenario)))
   \<and> m_sequenceNumber (projr (ticks 49 (projr scenario))) = 2440
   \<and> primaryFrames (projr (ticks 49 (projr scenario))) = 2440
   \<and> \<not> isl shortest
   \<and> CalculateNumberOfDatagramToSend (ucast (1 :: ulong)) (ucast (8192 :: ulong)) c_bufferSize
       = Inr 1
   \<and> \<not> isl (ticks 1 (projr shortest))
   \<and> \<not> m_running (projr (ticks 1 (projr shortest)))
   \<and> fx_sent (projr (ticks 1 (projr shortest))) = []"
proof -
  let ?s = "projr scenario"
  have h1: "m_running ?s" and h2: "m_threadpoolTimer ?s \<noteq> None"
    and q: "m_sequenceNumber ?s = 0" and N: "m_finalSequenceNumber ?s = 2440"
    and f: "m_frameRate ?s = 50" and p: "primaryFrames ?s = 0"
    and e: "\<not> isl scenario" and l: "length (m_latencyData ?s) = 2440"
    by (simp_all add: scenario_defs primaryFrames_def)
  have f1: "1 \<le> sint (m_frameRate ?s)" by (simp add: f)
  have b: "(48 :: nat) = 0 \<or> sint (m_sequenceNumber ?s) + int 48 * sint (m_frameRate ?s)
             < sint (m_finalSequenceNumber ?s)"
    by (simp add: q N f)
  have o: "sint (m_frameRate ?s) \<le> 2147483647
           \<or> sint (m_finalSequenceNumber ?s) - sint (m_sequenceNumber ?s) \<le> 2147483647"
    by (simp add: f)
  from ticks_continue [OF h1 h2 f1 b o]
  obtain sk where tk: "ticks 48 ?s = Inr sk" and rk: "m_running sk"
    and ak: "m_threadpoolTimer sk \<noteq> None"
    and qk: "sint (m_sequenceNumber sk) = 2400"
    and fk: "m_frameRate sk = 50" and Nk: "m_finalSequenceNumber sk = 2440"
    and pk: "int (primaryFrames sk) = 2400"
    by (auto simp: q N f p)
  have fk1: "1 \<le> sint (m_frameRate sk)" by (simp add: fk)
  have le: "sint (m_sequenceNumber sk) \<le> sint (m_finalSequenceNumber sk)" by (simp add: qk Nk)
  have ge: "sint (m_finalSequenceNumber sk) \<le> sint (m_sequenceNumber sk) + sint (m_frameRate sk)"
    by (simp add: qk Nk fk)
  have ok: "sint (m_frameRate sk) \<le> 2147483647
            \<or> sint (m_finalSequenceNumber sk) - sint (m_sequenceNumber sk) \<le> 2147483647"
    by (simp add: fk)
  from TimerFired_last [OF rk ak fk1 le ge ok]
  obtain s' where t': "TimerFired sk = Inr s'" and r': "\<not> m_running s'"
    and q': "m_sequenceNumber s' = 2440" and p': "int (primaryFrames s') = 2440"
    by (auto simp: qk Nk pk)
  have n49: "(49 :: nat) = Suc 48" by simp
  have t49: "ticks 49 ?s = Inr s'"
    by (subst n49) (simp only: ticks_Suc_right tk t' sum.case)
  have pl: "CalculateNumberOfDatagramToSend (ucast (10 :: ulong)) (ucast (2000000 :: ulong))
              c_bufferSize = Inr 2441"
      "CalculateNumberOfDatagramToSend (ucast (1 :: ulong)) (ucast (8192 :: ulong)) c_bufferSize
         = Inr 1"
    by (simp_all add: CalculateNumberOfDatagramToSend_def llong_div_def signed_divide_int_def
        c_bufferSize_def Let_def)
  have sh: "\<not> isl shortest" "\<not> isl (ticks 1 (projr shortest))"
      "\<not> m_running (projr (ticks 1 (projr shortest)))"
      "fx_sent (projr (ticks 1 (projr shortest))) = []"
    by (simp_all add: shortest_defs TimerFired_def TimerCallback_def SendLoop.simps Stop_def
        Cancel_def)
  from e pl N l t49 r' q' p' sh show ?thesis by simp
qed


end
